theory Spec2Isabelle
  imports Complex_Main
begin

section \<open>Errors\<close>

text \<open>
  The exceptions of the Python sources, as values. \<open>ValueError\<close> is raised by
  \<open>batch\<close> for an empty variable list, by \<open>range\<close> for a zero step and by numpy for
  arrays that cannot be concatenated or broadcast; \<open>AssertionError\<close> by every
  \<open>assert\<close>; \<open>KeyError\<close> by a lookup of an absent name; \<open>IndexError\<close> by
  \<open>sys.argv[1]\<close> when no argument was given; \<open>FileNotFoundError\<close> by
  \<open>h5py.File\<close> on a missing path. \<open>OtherError\<close> stands for whatever an overridden
  \<open>setup\<close> or \<open>predict\<close> or the operating system raises.
\<close>

datatype error =
    ValueError
  | AssertionError
  | KeyError
  | IndexError
  | FileNotFoundError
  | NotImplementedError
  | OtherError string

section \<open>The Batcher: \<open>BaseEvaluator.batch\<close> (submission/competition.py)\<close>

text \<open>
  A FeatureSet (the opened \<open>h5py.File\<close>) maps a variable name to its series, a
  sequence of rows indexed along the leading dimension. The row type \<open>'r\<close> is left
  open: a \<open>pv\<close> row is a vector, an \<open>hrv\<close> row an image.
\<close>

type_synonym 'r featureset = "string \<Rightarrow> 'r list option"

text \<open>
  The four operations \<open>batch\<close> performs on the FeatureSet, in state-passing style:
  each takes the store and returns its result with the store afterwards.
  \<open>variable in features\<close>, \<open>features[variable]\<close>, \<open>len(dataset)\<close> and
  \<open>dataset[i : j]\<close> are reads.
\<close>

definition contains :: "string \<Rightarrow> 'r featureset \<Rightarrow> bool \<times> 'r featureset" where
  "contains variable features = (features variable \<noteq> None, features)"

definition getitem :: "string \<Rightarrow> 'r featureset \<Rightarrow> (error + 'r list) \<times> 'r featureset" where
  "getitem variable features =
     (case features variable of None \<Rightarrow> Inl KeyError | Some d \<Rightarrow> Inr d, features)"

text \<open>
  A Python slice \<open>xs[lo : hi]\<close> with \<open>0 \<le> lo\<close> and \<open>0 \<le> hi\<close>: the bounds are clamped
  to the length, and the slice is empty when \<open>hi \<le> lo\<close>.
\<close>

definition py_slice :: "'r list \<Rightarrow> nat \<Rightarrow> nat \<Rightarrow> 'r list" where
  "py_slice xs lo hi = take (hi - lo) (drop lo xs)"

text \<open>
  \<open>range(i, stop, step)\<close> for a positive step, as the loop it drives: the index
  starts at \<open>i\<close> and advances by \<open>step\<close> while it is below \<open>stop\<close>.
\<close>

function py_range :: "nat \<Rightarrow> nat \<Rightarrow> nat \<Rightarrow> nat list" where
  "py_range i stop step =
     (if 0 < step \<and> i < stop then i # py_range (i + step) stop step else [])"
  by pat_completeness auto
termination
  by (relation "measure (\<lambda>(i, stop, step). stop - i)") auto

declare py_range.simps [simp del]

text \<open>\<open>for variable in variables: assert variable in features\<close>\<close>

fun assert_present :: "string list \<Rightarrow> 'r featureset \<Rightarrow> (error + unit) \<times> 'r featureset" where
  "assert_present [] features = (Inr (), features)"
| "assert_present (variable # rest) features =
     (case contains variable features of
        (ok, features') \<Rightarrow>
          if ok then assert_present rest features' else (Inl AssertionError, features'))"

text \<open>
  \<open>datasets = {variable: features[variable] for variable in variables}\<close>: a
  dictionary, built left to right; a later entry of the same key replaces the earlier.
\<close>

fun build_datasets ::
  "string list \<Rightarrow> (string \<Rightarrow> 'r list option) \<Rightarrow> 'r featureset
     \<Rightarrow> (error + (string \<Rightarrow> 'r list option)) \<times> 'r featureset" where
  "build_datasets [] datasets features = (Inr datasets, features)"
| "build_datasets (variable # rest) datasets features =
     (case getitem variable features of
        (Inl e, features') \<Rightarrow> (Inl e, features')
      | (Inr d, features') \<Rightarrow> build_datasets rest (datasets(variable \<mapsto> d)) features')"

text \<open>\<open>datasets[variable]\<close> on the dictionary just built.\<close>

definition dict_get :: "(string \<Rightarrow> 'r list option) \<Rightarrow> string \<Rightarrow> error + 'r list" where
  "dict_get datasets variable =
     (case datasets variable of None \<Rightarrow> Inl KeyError | Some d \<Rightarrow> Inr d)"

text \<open>
  \<open>[datasets[variable][i : i + batch_size] for variable in variables]\<close>: one slice
  per requested variable, all at the offsets \<open>i\<close> and \<open>i + batch_size\<close>.
\<close>

fun slice_all ::
  "(string \<Rightarrow> 'r list option) \<Rightarrow> string list \<Rightarrow> nat \<Rightarrow> nat \<Rightarrow> error + 'r list list" where
  "slice_all datasets [] lo hi = Inr []"
| "slice_all datasets (variable # rest) lo hi =
     (case dict_get datasets variable of
        Inl e \<Rightarrow> Inl e
      | Inr d \<Rightarrow>
          (case slice_all datasets rest lo hi of
             Inl e \<Rightarrow> Inl e
           | Inr slices \<Rightarrow> Inr (py_slice d lo hi # slices)))"

text \<open>The body of the \<open>for i in range(...)\<close> loop, over the offsets the range gives.\<close>

fun yield_all ::
  "(string \<Rightarrow> 'r list option) \<Rightarrow> string list \<Rightarrow> nat \<Rightarrow> nat list
     \<Rightarrow> error + 'r list list list" where
  "yield_all datasets variables step [] = Inr []"
| "yield_all datasets variables step (i # rest) =
     (case slice_all datasets variables i (i + step) of
        Inl e \<Rightarrow> Inl e
      | Inr b \<Rightarrow>
          (case yield_all datasets variables step rest of
             Inl e \<Rightarrow> Inl e
           | Inr bs \<Rightarrow> Inr (b # bs)))"

text \<open>
  \<open>batch(features, variables, batch_size)\<close>. The result is the sequence of batches
  the generator yields, in order, or the exception it raises; every exception of
  the body is raised before the first \<open>yield\<close>. A batch is the list of the slices,
  one per variable. \<open>batch_size\<close> is a Python \<open>int\<close>: a zero step makes \<open>range\<close>
  raise \<open>ValueError\<close>, a negative one gives an empty range.
\<close>

definition batch_st ::
  "string list \<Rightarrow> int \<Rightarrow> 'r featureset \<Rightarrow> (error + 'r list list list) \<times> 'r featureset" where
  "batch_st variables batch_size features =
     (if variables = [] then (Inl ValueError, features)
      else
        (case assert_present variables features of
           (Inl e, features1) \<Rightarrow> (Inl e, features1)
         | (Inr _, features1) \<Rightarrow>
             (case build_datasets variables Map.empty features1 of
                (Inl e, features2) \<Rightarrow> (Inl e, features2)
              | (Inr datasets, features2) \<Rightarrow>
                  (case dict_get datasets (hd variables) of
                     Inl e \<Rightarrow> (Inl e, features2)
                   | Inr first \<Rightarrow>
                       if batch_size = 0 then (Inl ValueError, features2)
                       else if batch_size < 0 then (Inr [], features2)
                       else
                         (yield_all datasets variables (nat batch_size)
                            (py_range 0 (length first) (nat batch_size)),
                          features2)))))"

definition batch :: "'r featureset \<Rightarrow> string list \<Rightarrow> int \<Rightarrow> error + 'r list list list" where
  "batch features variables batch_size = fst (batch_st variables batch_size features)"

text \<open>The number of rows of a batch: the leading dimension of its first slice.\<close>

definition batch_rows :: "'r list list \<Rightarrow> nat" where
  "batch_rows b = (case b of [] \<Rightarrow> 0 | s # _ \<Rightarrow> length s)"


section \<open>Generators\<close>

text \<open>
  What iterating a finite Python generator gives: it stops, or yields a value and
  goes on, or raises. \<open>predict\<close> returns one; the loops of \<open>evaluate\<close> and
  \<open>main\<close> consume it one batch at a time.
\<close>

datatype 'b gen = Stop | Yield 'b "'b gen" | Raise error

text \<open>The generator that yields the given values in order and then goes on as \<open>g\<close>.\<close>

fun yields :: "'b list \<Rightarrow> 'b gen \<Rightarrow> 'b gen" where
  "yields [] g = g"
| "yields (b # bs) g = Yield b (yields bs g)"

text \<open>The values a generator yields before it stops or raises.\<close>

fun gen_batches :: "'b gen \<Rightarrow> 'b list" where
  "gen_batches Stop = []"
| "gen_batches (Raise e) = []"
| "gen_batches (Yield b g) = b # gen_batches g"

section \<open>The predictor loop: \<open>Evaluator.predict\<close> (submission/run.py)\<close>

text \<open>
  \<open>for pv, hrv in self.batch(features, variables=["pv", "hrv"], batch_size=32):
  yield self.model(...)\<close>. The network is a parameter \<open>model\<close>, which returns a
  batch of predictions or raises. An exception of \<open>batch\<close> surfaces when the first
  prediction is requested. Unpacking a batch that does not hold two slices raises
  \<open>ValueError\<close>.
\<close>

fun predict_batches :: "('r list \<Rightarrow> 'r list \<Rightarrow> error + 'b) \<Rightarrow> 'r list list list \<Rightarrow> 'b gen" where
  "predict_batches model [] = Stop"
| "predict_batches model (b # rest) =
     (case b of
        [pv, hrv] \<Rightarrow>
          (case model pv hrv of
             Inl e \<Rightarrow> Raise e
           | Inr y \<Rightarrow> Yield y (predict_batches model rest))
      | _ \<Rightarrow> Raise ValueError)"

definition predict :: "('r list \<Rightarrow> 'r list \<Rightarrow> error + 'b) \<Rightarrow> 'r featureset \<Rightarrow> 'b gen" where
  "predict model features =
     (case batch features [''pv'', ''hrv''] 32 of
        Inl e \<Rightarrow> Raise e
      | Inr batches \<Rightarrow> predict_batches model batches)"

section \<open>The stream writer: \<open>BaseEvaluator.evaluate\<close> (submission/competition.py)\<close>

text \<open>
  The run is recorded as the sequence of its effects: a \<open>write\<close> to the sink with
  its text, a \<open>flush\<close> of the sink, the call of \<open>h5py.File\<close> on the input path,
  a request to the predictor for its next batch (the first one includes the call of
  \<open>predict\<close>), and the closing of the sink when the \<open>with\<close> block is left.
  Opening and writing the sink are taken to succeed.
\<close>

datatype event = Write string | Flush | OpenInput | Next | Close

text \<open>\<open>sep.join(parts)\<close>\<close>

fun join :: "string \<Rightarrow> string list \<Rightarrow> string" where
  "join sep [] = []"
| "join sep [x] = x"
| "join sep (x # y # ys) = x @ sep @ join sep (y # ys)"

text \<open>
  \<open>",".join([str(float(number)) for number in sample]) + "\n"\<close>. The decimal
  formatting of a float, \<open>str(float(number))\<close>, is the parameter \<open>fmt\<close>.
\<close>

definition format_line :: "('n \<Rightarrow> string) \<Rightarrow> 'n list \<Rightarrow> string" where
  "format_line fmt sample = join '','' (map fmt sample) @ [CHR 0x0A]"

text \<open>
  \<open>for sample in batch: assert sample.shape == (48,); f.write(...)\<close>. A sample is
  a vector, so its shape is \<open>(48,)\<close> when its length is 48. The result is the events
  of the loop and the exception that ended it, if any.
\<close>

fun write_samples :: "('n \<Rightarrow> string) \<Rightarrow> 'n list list \<Rightarrow> event list \<times> error option" where
  "write_samples fmt [] = ([], None)"
| "write_samples fmt (sample # rest) =
     (if length sample = 48 then
        (case write_samples fmt rest of
           (events, r) \<Rightarrow> (Write (format_line fmt sample) # events, r))
      else ([], Some AssertionError))"

text \<open>\<open>for batch in self.predict(...): ...; f.flush()\<close>\<close>

fun write_batches :: "('n \<Rightarrow> string) \<Rightarrow> 'n list list gen \<Rightarrow> event list \<times> error option" where
  "write_batches fmt Stop = ([Next], None)"
| "write_batches fmt (Raise e) = ([Next], Some e)"
| "write_batches fmt (Yield b g) =
     (case write_samples fmt b of
        (events, Some e) \<Rightarrow> (Next # events, Some e)
      | (events, None) \<Rightarrow>
          (case write_batches fmt g of
             (events', r) \<Rightarrow> (Next # events @ Flush # events', r)))"

text \<open>\<open>xs[i]\<close> on a list, for an index that is not negative.\<close>

definition list_index :: "'a list \<Rightarrow> nat \<Rightarrow> error + 'a" where
  "list_index xs i = (if i < length xs then Inr (xs ! i) else Inl IndexError)"

text \<open>
  \<open>evaluate\<close>. \<open>argv\<close> is \<open>sys.argv\<close> and \<open>h5py_file\<close> is what
  \<open>h5py.File(path, "r")\<close> gives for a path: the opened features, or the exception
  of an unreadable file. In line 60 the argument \<open>sys.argv[1]\<close> is evaluated
  first, and \<open>h5py.File\<close> is called only when it exists. The result is the events
  of the run and the exception that leaves \<open>evaluate\<close>, if any.
\<close>

definition evaluate ::
  "('n \<Rightarrow> string) \<Rightarrow> string list \<Rightarrow> (string \<Rightarrow> error + 'f) \<Rightarrow> ('f \<Rightarrow> 'n list list gen)
     \<Rightarrow> event list \<times> error option" where
  "evaluate fmt argv h5py_file predict_fn =
     (case
        (case list_index argv 1 of
           Inl e \<Rightarrow> ([], Some e)
         | Inr path \<Rightarrow>
             (case h5py_file path of
                Inl e \<Rightarrow> ([OpenInput], Some e)
              | Inr features \<Rightarrow>
                  (case write_batches fmt (predict_fn features) of
                     (events, r) \<Rightarrow> (OpenInput # events, r))))
      of (events, r) \<Rightarrow> (Write (''OK'' @ [CHR 0x0A]) # Flush # events @ [Close], r))"

text \<open>The writes and flushes of a run, in order: what the sink sees before it is closed.\<close>

fun is_write_or_flush :: "event \<Rightarrow> bool" where
  "is_write_or_flush (Write _) = True"
| "is_write_or_flush Flush = True"
| "is_write_or_flush _ = False"

definition writes_and_flushes :: "event list \<Rightarrow> event list" where
  "writes_and_flushes events = filter is_write_or_flush events"

text \<open>The text in the sink after the events: the written strings, concatenated.\<close>

fun sink_text :: "event list \<Rightarrow> string" where
  "sink_text [] = []"
| "sink_text (Write s # events) = s @ sink_text events"
| "sink_text (_ # events) = sink_text events"

text \<open>The writes of the samples of a batch, one line for each sample, in order.\<close>

definition sample_lines :: "('n \<Rightarrow> string) \<Rightarrow> 'n list list \<Rightarrow> event list" where
  "sample_lines fmt b = map (\<lambda>sample. Write (format_line fmt sample)) b"

text \<open>
  The events of a batch that is written in full: the request for it, its lines and
  the flush after them.
\<close>

definition batch_events :: "('n \<Rightarrow> string) \<Rightarrow> 'n list list \<Rightarrow> event list" where
  "batch_events fmt b = Next # sample_lines fmt b @ [Flush]"

section \<open>The validation script: \<open>main\<close> (validate.py)\<close>

text \<open>
  A two-dimensional array: its shape and its elements by index. The element type
  \<open>'a\<close> stands for the floating-point numbers of numpy.
\<close>

record 'a ndarray =
  shape0 :: nat
  shape1 :: nat
  item :: "nat \<Rightarrow> nat \<Rightarrow> 'a"

text \<open>
  The floating-point primitives the script takes from numpy, as parameters:
  the subtraction and the absolute value of two numbers, and \<open>np.mean\<close> of the
  elements of an array, given in row-major order.
\<close>

record 'a numpy =
  np_subtract :: "'a \<Rightarrow> 'a \<Rightarrow> 'a"
  np_absolute :: "'a \<Rightarrow> 'a"
  np_mean :: "'a list \<Rightarrow> 'a"

text \<open>
  \<open>np.concatenate(arrays)\<close> along the first axis: \<open>ValueError\<close> for an empty list
  and for arrays whose second dimensions differ.
\<close>

fun concat_item :: "'a ndarray \<Rightarrow> 'a ndarray list \<Rightarrow> nat \<Rightarrow> nat \<Rightarrow> 'a" where
  "concat_item a [] i j = item a i j"
| "concat_item a (b # rest) i j =
     (if i < shape0 a then item a i j else concat_item b rest (i - shape0 a) j)"

definition concatenate :: "'a ndarray list \<Rightarrow> error + 'a ndarray" where
  "concatenate arrays =
     (case arrays of
        [] \<Rightarrow> Inl ValueError
      | a # rest \<Rightarrow>
          if list_all (\<lambda>b. shape1 b = shape1 a) rest then
            Inr \<lparr>shape0 = sum_list (map shape0 arrays), shape1 = shape1 a,
                 item = concat_item a rest\<rparr>
          else Inl ValueError)"

text \<open>
  Broadcasting of numpy: two dimensions are compatible when they are equal or one
  of them is 1; the dimension of size 1 is stretched to the other.
\<close>

definition broadcastable :: "nat \<Rightarrow> nat \<Rightarrow> bool" where
  "broadcastable m n = (m = n \<or> m = 1 \<or> n = 1)"

definition broadcast_dim :: "nat \<Rightarrow> nat \<Rightarrow> nat" where
  "broadcast_dim m n = (if m = 1 then n else m)"

definition broadcast_index :: "nat \<Rightarrow> nat \<Rightarrow> nat" where
  "broadcast_index n i = (if n = 1 then 0 else i)"

text \<open>\<open>a - b\<close> on arrays: \<open>ValueError\<close> when the shapes cannot be broadcast together.\<close>

definition array_subtract :: "'a numpy \<Rightarrow> 'a ndarray \<Rightarrow> 'a ndarray \<Rightarrow> error + 'a ndarray" where
  "array_subtract np a b =
     (if broadcastable (shape0 a) (shape0 b) \<and> broadcastable (shape1 a) (shape1 b) then
        Inr \<lparr>shape0 = broadcast_dim (shape0 a) (shape0 b),
             shape1 = broadcast_dim (shape1 a) (shape1 b),
             item = (\<lambda>i j.
               np_subtract np
                 (item a (broadcast_index (shape0 a) i) (broadcast_index (shape1 a) j))
                 (item b (broadcast_index (shape0 b) i) (broadcast_index (shape1 b) j)))\<rparr>
      else Inl ValueError)"

text \<open>\<open>np.absolute(a)\<close>, element by element.\<close>

definition array_absolute :: "'a numpy \<Rightarrow> 'a ndarray \<Rightarrow> 'a ndarray" where
  "array_absolute np a = a\<lparr>item := (\<lambda>i j. np_absolute np (item a i j))\<rparr>"

text \<open>The rows of an array, each the list of its elements.\<close>

definition array_rows :: "'a ndarray \<Rightarrow> 'a list list" where
  "array_rows a = map (\<lambda>i. map (item a i) [0 ..< shape1 a]) [0 ..< shape0 a]"

text \<open>The elements of an array in row-major order.\<close>

definition flatten :: "'a ndarray \<Rightarrow> 'a list" where
  "flatten a = concat (map (\<lambda>i. map (item a i) [0 ..< shape1 a]) [0 ..< shape0 a])"

text \<open>
  \<open>for batch in evaluator.predict(features=data): assert batch.shape[-1] == 48;
  predictions.append(batch)\<close>
\<close>

fun collect :: "'a ndarray gen \<Rightarrow> 'a ndarray list \<Rightarrow> error + 'a ndarray list" where
  "collect Stop predictions = Inr predictions"
| "collect (Raise e) predictions = Inl e"
| "collect (Yield b g) predictions =
     (if shape1 b = 48 then collect g (predictions @ [b]) else Inl AssertionError)"

text \<open>What the script prints: the diagnostic of a missing data file, or the metric.\<close>

datatype 'a printed = Unable | MAE 'a

text \<open>
  \<open>main\<close>. \<open>data\<close> is what \<open>h5py.File(DATA_PATH, "r")\<close> gives, \<open>evaluator\<close> what
  \<open>Evaluator()\<close> gives (its \<open>predict\<close>, or the exception of its \<open>setup\<close>), and
  \<open>targets\<close> reads \<open>data["targets"]\<close>. The result is the lines printed and the
  exception that leaves \<open>main\<close>, if any. In line 35 the left operand
  \<open>data["targets"]\<close> is evaluated before \<open>np.concatenate(predictions)\<close>. The
  changes of the working directory are taken to succeed and are not recorded.
\<close>

definition main ::
  "'a numpy \<Rightarrow> error + 'd \<Rightarrow> error + ('d \<Rightarrow> 'a ndarray gen) \<Rightarrow> ('d \<Rightarrow> 'a ndarray option)
     \<Rightarrow> 'a printed list \<times> error option" where
  "main np data evaluator targets =
     (case data of
        Inl e \<Rightarrow> if e = FileNotFoundError then ([Unable], None) else ([], Some e)
      | Inr d \<Rightarrow>
          (case evaluator of
             Inl e \<Rightarrow> ([], Some e)
           | Inr predict_fn \<Rightarrow>
               (case collect (predict_fn d) [] of
                  Inl e \<Rightarrow> ([], Some e)
                | Inr predictions \<Rightarrow>
                    (case targets d of
                       None \<Rightarrow> ([], Some KeyError)
                     | Some t \<Rightarrow>
                         (case concatenate predictions of
                            Inl e \<Rightarrow> ([], Some e)
                          | Inr p \<Rightarrow>
                              (case array_subtract np t p of
                                 Inl e \<Rightarrow> ([], Some e)
                               | Inr diff \<Rightarrow>
                                   ([MAE (np_mean np (flatten (array_absolute np diff)))],
                                    None)))))))"


section \<open>Example inputs\<close>

text \<open>
  A FeatureSet with \<open>pv\<close> and \<open>hrv\<close> series of 100 samples each; a row is named
  by its variable and its sample index.
\<close>

definition scenario_features :: "(string \<times> nat) featureset" where
  "scenario_features =
     [''pv'' \<mapsto> map (Pair ''pv'') [0 ..< 100], ''hrv'' \<mapsto> map (Pair ''hrv'') [0 ..< 100]]"

text \<open>A FeatureSet whose second series is shorter than its first.\<close>

definition ragged_features :: "nat featureset" where
  "ragged_features = [''a'' \<mapsto> [1, 2, 3, 4, 5], ''b'' \<mapsto> [10, 20, 30]]"

text \<open>
  The two numbers the examples of the live path use, the floats \<open>0.0\<close> and
  \<open>1.0\<close>, and their text \<open>str(float(number))\<close>.
\<close>

datatype number = N0 | N1

fun example_fmt :: "number \<Rightarrow> string" where
  "example_fmt N0 = ''0.0''"
| "example_fmt N1 = ''1.0''"

text \<open>A network that predicts a vector of 48 zeros for every sample of its batch.\<close>

definition zero_vectors :: "nat list \<Rightarrow> nat list \<Rightarrow> error + number list list" where
  "zero_vectors pv hrv = Inr (replicate (length pv) (replicate 48 N0))"

text \<open>\<open>np.full((m, n), x)\<close>: the array of the given shape whose elements are all \<open>x\<close>.\<close>

definition full :: "nat \<Rightarrow> nat \<Rightarrow> 'a \<Rightarrow> 'a ndarray" where
  "full m n x = \<lparr>shape0 = m, shape1 = n, item = (\<lambda>i j. x)\<rparr>"

text \<open>The numpy primitives computed exactly, over the real numbers.\<close>

definition exact_numpy :: "real numpy" where
  "exact_numpy =
     \<lparr>np_subtract = (\<lambda>x y. x - y), np_absolute = abs,
      np_mean = (\<lambda>xs. sum_list xs / real (length xs))\<rparr>"

text \<open>A validation FeatureSet of 10 samples, and a network that predicts zeros for it.\<close>

definition validation_features :: "nat featureset" where
  "validation_features = [''pv'' \<mapsto> [0 ..< 10], ''hrv'' \<mapsto> [0 ..< 10]]"

definition zero_model :: "nat list \<Rightarrow> nat list \<Rightarrow> error + real ndarray" where
  "zero_model pv hrv = Inr (full (length pv) 48 0)"

text \<open>Targets of 10 samples, all zero, whatever the data file.\<close>

definition ten_row_targets :: "nat featureset \<Rightarrow> real ndarray option" where
  "ten_row_targets data = Some (full 10 48 0)"

text \<open>A data file of two samples whose \<open>targets\<close> series holds a single row of ones.\<close>

definition two_sample_features :: "nat featureset" where
  "two_sample_features = [''pv'' \<mapsto> [0, 1], ''hrv'' \<mapsto> [0, 1]]"

definition one_row_targets :: "nat featureset \<Rightarrow> real ndarray option" where
  "one_row_targets data = Some (full 1 48 1)"

text \<open>
  Two predictors for the live path: one whose second batch holds a vector of
  length 47, and one whose vectors all have length 48.
\<close>

definition short_vector_run :: "nat featureset \<Rightarrow> number list list gen" where
  "short_vector_run features =
     Yield [replicate 48 N0]
       (Yield [replicate 48 N1, replicate 47 N0, replicate 48 N0] (Yield [replicate 48 N0] Stop))"

definition good_run :: "nat featureset \<Rightarrow> number list list gen" where
  "good_run features = Yield [replicate 48 N0, replicate 48 N1] (Yield [replicate 48 N1] Stop)"

text \<open>
  A file system that holds one feature file, \<open>features.hdf5\<close>, whose FeatureSet
  has neither a \<open>pv\<close> nor an \<open>hrv\<close> series.
\<close>

definition example_h5py_file :: "string \<Rightarrow> error + nat featureset" where
  "example_h5py_file path =
     (if path = ''features.hdf5'' then Inr ragged_features else Inl FileNotFoundError)"

text \<open>Targets of three samples, all one, whatever the data file.\<close>

definition three_row_targets :: "nat featureset \<Rightarrow> real ndarray option" where
  "three_row_targets data = Some (full 3 48 1)"

section \<open>Properties of the Batcher\<close>

lemma py_range_closed:
  "0 < step \<Longrightarrow>
   py_range i stop step = map (\<lambda>k. i + k * step) [0 ..< (stop - i + step - 1) div step]"
proof (induction i stop step rule: py_range.induct)
  case (1 i stop step)
  show ?case
  proof (cases "i < stop")
    case False
    then have "(stop - i + step - 1) div step = 0" using "1.prems" by simp
    with False show ?thesis by (simp add: py_range.simps)
  next
    case True
    define a where "a = stop - (i + step) + step - 1"
    have n: "(stop - i + step - 1) div step = Suc (a div step)"
    proof (cases "i + step \<le> stop")
      case True
      then have "stop - i + step - 1 = a + step"
        using "1.prems" unfolding a_def by simp
      then have "(stop - i + step - 1) div step = (a + step) div step"
        by (rule arg_cong)
      also have "\<dots> = Suc (a div step)"
        using "1.prems" by simp
      finally show ?thesis .
    next
      case False
      then have a: "a < step" using "1.prems" unfolding a_def by simp
      have b: "step \<le> stop - i + step - 1" "stop - i + step - 1 < 2 * step"
        using False True "1.prems" by simp_all
      have "(stop - i + step - 1) div step = 1"
        using b "1.prems" by (simp add: div_nat_eqI)
      with a show ?thesis by simp
    qed
    have "py_range i stop step = i # py_range (i + step) stop step"
      using True "1.prems" by (simp add: py_range.simps)
    also have "\<dots> = i # map (\<lambda>k. (i + step) + k * step) [0 ..< (stop - (i + step) + step - 1) div step]"
      using "1.IH" True "1.prems" by simp
    also have "\<dots> = map (\<lambda>k. i + k * step) [0 ..< Suc ((stop - (i + step) + step - 1) div step)]"
      by (simp add: upt_conv_Cons map_Suc_upt [symmetric] ac_simps del: upt_Suc)
    finally show ?thesis using n unfolding a_def by simp
  qed
qed

lemma assert_present_closed:
  "assert_present variables features =
     (if list_all (\<lambda>v. features v \<noteq> None) variables then Inr () else Inl AssertionError, features)"
  by (induction variables) (auto simp: contains_def)

lemma build_datasets_closed:
  "list_all (\<lambda>v. features v \<noteq> None) variables \<Longrightarrow>
   build_datasets variables datasets features =
     (Inr (\<lambda>v. if v \<in> set variables then features v else datasets v), features)"
proof (induction variables arbitrary: datasets)
  case Nil
  then show ?case by simp
next
  case (Cons a variables)
  then obtain d where d: "features a = Some d" by auto
  have "(\<lambda>v. if v \<in> set variables then features v else (datasets(a \<mapsto> d)) v)
      = (\<lambda>v. if v \<in> set (a # variables) then features v else datasets v)"
    using d by (auto simp: fun_eq_iff)
  with Cons d show ?case by (simp add: getitem_def)
qed

lemma slice_all_closed:
  "list_all (\<lambda>v. datasets v \<noteq> None) variables \<Longrightarrow>
   slice_all datasets variables lo hi =
     Inr (map (\<lambda>v. py_slice (the (datasets v)) lo hi) variables)"
  by (induction variables) (auto simp: dict_get_def)

lemma yield_all_closed:
  "list_all (\<lambda>v. datasets v \<noteq> None) variables \<Longrightarrow>
   yield_all datasets variables step offsets =
     Inr (map (\<lambda>i. map (\<lambda>v. py_slice (the (datasets v)) i (i + step)) variables) offsets)"
  by (induction offsets) (auto simp: slice_all_closed)

lemma batch_st_store: "snd (batch_st variables batch_size features) = features"
  by (cases variables)
     (auto simp: batch_st_def assert_present_closed build_datasets_closed dict_get_def
           simp del: assert_present.simps build_datasets.simps split: sum.splits prod.splits if_splits option.splits)


lemma batch_closed:
  assumes "variables \<noteq> []"
    and "list_all (\<lambda>v. features v \<noteq> None) variables"
    and "0 < batch_size"
  shows "batch features variables batch_size =
     Inr (map (\<lambda>i. map (\<lambda>v. py_slice (the (features v)) i (i + nat batch_size)) variables)
            (py_range 0 (length (the (features (hd variables)))) (nat batch_size)))"
proof -
  let ?ds = "\<lambda>v. if v \<in> set variables then features v else None"
  have hd: "hd variables \<in> set variables" using assms(1) by simp
  then obtain first where first: "features (hd variables) = Some first"
    using assms(2) by (auto simp: list_all_iff)
  have ds: "list_all (\<lambda>v. ?ds v \<noteq> None) variables"
    using assms(2) by (simp add: list_all_iff)
  have "yield_all ?ds variables (nat batch_size) (py_range 0 (length first) (nat batch_size)) =
      Inr (map (\<lambda>i. map (\<lambda>v. py_slice (the (?ds v)) i (i + nat batch_size)) variables)
            (py_range 0 (length first) (nat batch_size)))"
    using ds by (rule yield_all_closed)
  also have "\<dots> = Inr (map (\<lambda>i. map (\<lambda>v. py_slice (the (features v)) i (i + nat batch_size)) variables)
            (py_range 0 (length first) (nat batch_size)))"
    by simp
  finally show ?thesis
    using assms hd first
    by (simp add: batch_def batch_st_def assert_present_closed build_datasets_closed dict_get_def)
qed

lemma py_slice_nth:
  "py_slice xs lo (lo + n) = map (\<lambda>p. xs ! p) [lo ..< min (lo + n) (length xs)]"
proof (rule nth_equalityI)
  show "length (py_slice xs lo (lo + n)) = length (map (\<lambda>p. xs ! p) [lo ..< min (lo + n) (length xs)])"
    by (auto simp: py_slice_def)
next
  fix i assume "i < length (py_slice xs lo (lo + n))"
  then show "py_slice xs lo (lo + n) ! i = map (\<lambda>p. xs ! p) [lo ..< min (lo + n) (length xs)] ! i"
    by (auto simp: py_slice_def)
qed

lemma length_py_slice: "length (py_slice xs lo (lo + n)) = min n (length xs - lo)"
  by (simp add: py_slice_def)

lemma concat_slices:
  "0 < step \<Longrightarrow>
   concat (map (\<lambda>i. py_slice xs i (i + step)) (py_range i0 (length xs) step)) = drop i0 xs"
proof (induction i0 "length xs" step rule: py_range.induct)
  case (1 i step)
  show ?case
  proof (cases "i < length xs")
    case True
    have "take step (drop i xs) @ drop (i + step) xs = drop i xs"
      by (metis add.commute append_take_drop_id drop_drop)
    with True 1 show ?thesis
      by (simp add: py_range.simps [of i] py_slice_def)
  next
    case False
    then show ?thesis by (simp add: py_range.simps [of i])
  qed
qed

lemma ceiling_div_nat:
  assumes "0 < b"
  shows "int ((n + b - 1) div b) = \<lceil>real n / real b\<rceil>"
proof -
  define q where "q = (n + b - 1) div b"
  define r where "r = (n + b - 1) mod b"
  have split: "n + b - 1 = q * b + r" unfolding q_def r_def by simp
  have r: "r < b" unfolding r_def using assms by simp
  have up: "n \<le> q * b" using split r by linarith
  have lo: "q * b < n + b" using split assms by linarith
  have "real n \<le> real (q * b)" using up by (rule iffD2 [OF of_nat_le_iff])
  then have le: "real n / real b \<le> real q"
    using assms by (simp add: pos_divide_le_eq)
  have "real (q * b) < real (n + b)" using lo by (rule iffD2 [OF of_nat_less_iff])
  then have "(real q - 1) * real b < real n" by (simp add: algebra_simps)
  then have gt: "real q - 1 < real n / real b"
    using assms by (simp add: pos_less_divide_eq)
  have "\<lceil>real n / real b\<rceil> = int q"
    by (rule ceiling_unique) (use le gt in simp_all)
  then show ?thesis unfolding q_def by simp
qed


lemma batch_closed_range:
  assumes "variables \<noteq> []"
    and "list_all (\<lambda>v. features v \<noteq> None) variables"
    and "0 < batch_size"
  shows "batch features variables batch_size =
     Inr (map (\<lambda>k. map (\<lambda>v. py_slice (the (features v)) (k * nat batch_size)
                                  (k * nat batch_size + nat batch_size)) variables)
            [0 ..< (length (the (features (hd variables))) + nat batch_size - 1) div nat batch_size])"
  using assms by (simp add: batch_closed py_range_closed o_def)

text \<open>
  Claim C1. When every requested series has \<open>N\<close> samples, the variable list is
  non-empty and present, and \<open>batch_size\<close> is positive, the Batcher yields
  \<open>ceil(N / batch_size)\<close> batches whose row counts sum to \<open>N\<close>. Batch \<open>k\<close> holds,
  for every variable, the rows of the window from \<open>k * batch_size\<close> up to
  \<open>k * batch_size + batch_size\<close>, cut at \<open>N\<close>: every batch but the last has exactly
  \<open>batch_size\<close> rows, and the last has the remaining rows, at least one and without
  padding.
\<close>

theorem batch_count_and_windows:
  assumes nonempty: "variables \<noteq> []"
    and present: "\<forall>v \<in> set variables. \<exists>series. features v = Some series \<and> length series = N"
    and positive: "0 < batch_size"
  shows "\<exists>batches. batch features variables batch_size = Inr batches
      \<and> int (length batches) = \<lceil>real N / real_of_int batch_size\<rceil>
      \<and> sum_list (map batch_rows batches) = N
      \<and> (\<forall>k < length batches. \<forall>j < length variables.
            batches ! k ! j =
              map (\<lambda>p. the (features (variables ! j)) ! p)
                [k * nat batch_size ..< min (k * nat batch_size + nat batch_size) N])
      \<and> (\<forall>k < length batches.
            length (batches ! k) = length variables
            \<and> batch_rows (batches ! k) =
                (if Suc k < length batches then nat batch_size else N - k * nat batch_size)
            \<and> 0 < batch_rows (batches ! k) \<and> batch_rows (batches ! k) \<le> nat batch_size
            \<and> (\<forall>s \<in> set (batches ! k). length s = batch_rows (batches ! k)))"
proof -
  define b where "b = nat batch_size"
  define n where "n = (N + b - 1) div b"
  define batches where
    "batches = map (\<lambda>k. map (\<lambda>v. py_slice (the (features v)) (k * b) (k * b + b)) variables) [0 ..< n]"
  have b: "0 < b" "int b = batch_size" using positive by (simp_all add: b_def)
  have all: "list_all (\<lambda>v. features v \<noteq> None) variables"
    using present by (auto simp: list_all_iff)
  have len: "\<And>v. v \<in> set variables \<Longrightarrow> length (the (features v)) = N"
    using present by auto
  have hd: "hd variables \<in> set variables" using nonempty by simp
  have run: "batch features variables batch_size = Inr batches"
    using batch_closed_range [OF nonempty all positive] len [OF hd]
    by (simp add: batches_def b_def n_def)
  have count: "length batches = n" by (simp add: batches_def)
  have ceil: "int n = \<lceil>real N / real_of_int batch_size\<rceil>"
  proof -
    have "real b = real_of_int batch_size" using positive by (simp add: b_def)
    then show ?thesis using ceiling_div_nat [OF b(1), of N] by (simp add: n_def)
  qed
  have nb: "\<And>k. k < n \<Longrightarrow> k * b < N"
  proof -
    fix k assume "k < n"
    then have "Suc k \<le> n" by simp
    then have "Suc k * b \<le> n * b" by (rule mult_le_mono1)
    moreover have "n * b \<le> N + b - 1" unfolding n_def by simp
    ultimately show "k * b < N" using b(1) by simp
  qed
  have last: "\<And>k. k < n \<Longrightarrow> \<not> Suc k < n \<Longrightarrow> N - k * b \<le> b"
  proof -
    fix k assume "k < n" "\<not> Suc k < n"
    then have "n = Suc k" by simp
    moreover have "N + b - 1 < Suc n * b"
      unfolding n_def using b(1) by (simp add: dividend_less_div_times)
    ultimately show "N - k * b \<le> b" by simp
  qed
  have inner: "\<And>k. Suc k < n \<Longrightarrow> b \<le> N - k * b"
  proof -
    fix k assume "Suc k < n"
    then have "Suc k * b < N" by (rule nb)
    then show "b \<le> N - k * b" by simp
  qed
  have slice_len: "\<And>k v. k < n \<Longrightarrow> v \<in> set variables \<Longrightarrow>
      length (py_slice (the (features v)) (k * b) (k * b + b)) = (if Suc k < n then b else N - k * b)"
  proof -
    fix k v assume k: "k < n" and v: "v \<in> set variables"
    have "length (py_slice (the (features v)) (k * b) (k * b + b)) = min b (N - k * b)"
      by (simp add: length_py_slice len [OF v])
    also have "\<dots> = (if Suc k < n then b else N - k * b)"
      using last [OF k] inner [of k] by (cases "Suc k < n") (auto simp: min_def)
    finally show "length (py_slice (the (features v)) (k * b) (k * b + b)) =
        (if Suc k < n then b else N - k * b)" .
  qed
  have rows: "\<And>k. k < n \<Longrightarrow> batch_rows (batches ! k) = (if Suc k < n then b else N - k * b)"
  proof -
    fix k assume k: "k < n"
    obtain v vs where vs: "variables = v # vs" using nonempty by (cases variables) auto
    then have "batch_rows (batches ! k) = length (py_slice (the (features v)) (k * b) (k * b + b))"
      using k by (simp add: batches_def batch_rows_def)
    then show "batch_rows (batches ! k) = (if Suc k < n then b else N - k * b)"
      using slice_len [OF k, of v] vs by simp
  qed
  have windows: "\<forall>k < length batches. \<forall>j < length variables.
      batches ! k ! j =
        map (\<lambda>p. the (features (variables ! j)) ! p) [k * b ..< min (k * b + b) N]"
    by (simp add: batches_def py_slice_nth len)
  have shape: "\<forall>k < length batches.
      length (batches ! k) = length variables
      \<and> batch_rows (batches ! k) = (if Suc k < length batches then b else N - k * b)
      \<and> 0 < batch_rows (batches ! k) \<and> batch_rows (batches ! k) \<le> b
      \<and> (\<forall>s \<in> set (batches ! k). length s = batch_rows (batches ! k))"
  proof (intro allI impI)
    fix k assume "k < length batches"
    then have k: "k < n" by (simp add: count)
    have 1: "length (batches ! k) = length variables" using k by (simp add: batches_def)
    have 2: "batch_rows (batches ! k) = (if Suc k < length batches then b else N - k * b)"
      using rows [OF k] by (simp add: count)
    have 3: "0 < batch_rows (batches ! k)" "batch_rows (batches ! k) \<le> b"
      using rows [OF k] nb [OF k] last [OF k] b(1) by (auto split: if_splits)
    have 4: "\<forall>s \<in> set (batches ! k). length s = batch_rows (batches ! k)"
      using k slice_len [OF k] rows [OF k] by (auto simp: batches_def)
    show "length (batches ! k) = length variables
      \<and> batch_rows (batches ! k) = (if Suc k < length batches then b else N - k * b)
      \<and> 0 < batch_rows (batches ! k) \<and> batch_rows (batches ! k) \<le> b
      \<and> (\<forall>s \<in> set (batches ! k). length s = batch_rows (batches ! k))"
      using 1 2 3 4 by blast
  qed
  have total: "sum_list (map batch_rows batches) = N"
  proof -
    obtain v vs where vs: "variables = v # vs" using nonempty by (cases variables) auto
    let ?xs = "the (features v)"
    have "map batch_rows batches = map length (map (\<lambda>i. py_slice ?xs i (i + b)) (py_range 0 (length ?xs) b))"
      using b(1) len [of v] vs by (simp add: batches_def batch_rows_def py_range_closed n_def o_def)
    then have "sum_list (map batch_rows batches) =
        length (concat (map (\<lambda>i. py_slice ?xs i (i + b)) (py_range 0 (length ?xs) b)))"
      by (simp only: length_concat)
    also have "\<dots> = length ?xs" using b(1) by (simp only: concat_slices) simp
    finally show ?thesis using len [of v] vs by simp
  qed
  show ?thesis
    using run count ceil total windows shape unfolding b_def [symmetric] by blast
qed


theorem batch_count_and_windows_witness:
  "\<exists>batches. batch scenario_features [''pv'', ''hrv''] 32 = Inr batches
     \<and> map batch_rows batches = [32, 32, 32, 4]
     \<and> batches ! 3 ! 1 = map (Pair ''hrv'') [96 ..< 100]"
proof -
  have present: "\<forall>v \<in> set [''pv'', ''hrv''].
      \<exists>series. scenario_features v = Some series \<and> length series = 100"
    by (simp add: scenario_features_def del: upt_rec_numeral)
  have ne: "[''pv'', ''hrv''] \<noteq> []" by simp
  have pos: "(0::int) < 32" by simp
  obtain batches where run: "batch scenario_features [''pv'', ''hrv''] 32 = Inr batches"
    and count: "int (length batches) = \<lceil>real 100 / real_of_int 32\<rceil>"
    and windows: "\<forall>k < length batches. \<forall>j < length [''pv'', ''hrv''].
            batches ! k ! j =
              map (\<lambda>p. the (scenario_features ([''pv'', ''hrv''] ! j)) ! p)
                [k * nat 32 ..< min (k * nat 32 + nat 32) 100]"
    and shape: "\<forall>k < length batches.
            length (batches ! k) = length [''pv'', ''hrv'']
            \<and> batch_rows (batches ! k) =
                (if Suc k < length batches then nat 32 else 100 - k * nat 32)
            \<and> 0 < batch_rows (batches ! k) \<and> batch_rows (batches ! k) \<le> nat 32
            \<and> (\<forall>s \<in> set (batches ! k). length s = batch_rows (batches ! k))"
    using batch_count_and_windows [of "[''pv'', ''hrv'']" scenario_features 100 32, OF ne present pos]
    by blast
  have "\<lceil>real 100 / real_of_int 32\<rceil> = (4::int)"
    by (rule ceiling_unique) simp_all
  then have len: "length batches = 4" using count by simp
  have rows: "map batch_rows batches = [32, 32, 32, 4]"
  proof (rule nth_equalityI)
    show "length (map batch_rows batches) = length [32, 32, 32, 4::nat]" using len by simp
  next
    fix i assume "i < length (map batch_rows batches)"
    then have "i < 4" using len by simp
    then consider "i = 0" | "i = 1" | "i = 2" | "i = 3" by linarith
    then show "map batch_rows batches ! i = [32, 32, 32, 4] ! i"
      using shape len by cases simp_all
  qed
  have "batches ! 3 ! 1 = map (\<lambda>p. the (scenario_features ''hrv'') ! p) [96 ..< 100]"
    using windows len by simp
  also have "\<dots> = map (Pair ''hrv'') [96 ..< 100]"
  proof (rule map_cong [OF refl])
    fix p :: nat assume "p \<in> set [96 ..< 100]"
    then have "p < 100" by (simp del: upt_rec_numeral)
    then show "the (scenario_features ''hrv'') ! p = (''hrv'', p)"
      by (simp add: scenario_features_def del: upt_rec_numeral)
  qed
  finally have last: "batches ! 3 ! 1 = map (Pair ''hrv'') [96 ..< 100]" .
  show ?thesis by (intro exI [of _ batches] conjI run rows last)
qed

lemma batch_st_closed:
  "batch_st variables batch_size features =
     (if variables = [] then Inl ValueError
      else if \<not> list_all (\<lambda>v. features v \<noteq> None) variables then Inl AssertionError
      else if batch_size = 0 then Inl ValueError
      else if batch_size < 0 then Inr []
      else Inr (map (\<lambda>i. map (\<lambda>v. py_slice (the (features v)) i (i + nat batch_size)) variables)
                  (py_range 0 (length (the (features (hd variables)))) (nat batch_size))),
      features)"
proof (cases "variables \<noteq> [] \<and> list_all (\<lambda>v. features v \<noteq> None) variables")
  case False
  then show ?thesis
    by (auto simp: batch_st_def assert_present_closed)
next
  case True
  then have hd: "hd variables \<in> set variables" by simp
  have "\<forall>v \<in> set variables. \<exists>d. features v = Some d"
    using True by (auto simp: list_all_iff)
  with hd obtain first where first: "features (hd variables) = Some first"
    by blast
  show ?thesis
  proof (cases "0 < batch_size")
    case False
    then show ?thesis
      using True hd first
      by (auto simp: batch_st_def assert_present_closed build_datasets_closed dict_get_def)
  next
    case pos: True
    have "batch features variables batch_size =
        Inr (map (\<lambda>i. map (\<lambda>v. py_slice (the (features v)) i (i + nat batch_size)) variables)
               (py_range 0 (length (the (features (hd variables)))) (nat batch_size)))"
      using True pos by (simp add: batch_closed)
    moreover have "snd (batch_st variables batch_size features) = features"
      by (rule batch_st_store)
    ultimately show ?thesis
      using True pos by (simp add: batch_def prod_eq_iff)
  qed
qed

lemma batch_Inr_cases:
  assumes "batch features variables batch_size = Inr batches"
  shows "variables \<noteq> [] \<and> list_all (\<lambda>v. features v \<noteq> None) variables
         \<and> (batch_size < 0 \<and> batches = [] \<or> 0 < batch_size)"
  using assms by (auto simp: batch_def batch_st_closed split: if_splits)

text \<open>
  Claim C2. In every batch the Batcher yields, every requested variable is sliced
  with the same offsets \<open>k * batch_size\<close> and \<open>k * batch_size + batch_size\<close>, so the
  row at position \<open>p\<close> of the slice of any variable is the sample
  \<open>k * batch_size + p\<close> of that variable's series.
\<close>

theorem batch_alignment:
  assumes "batch features variables batch_size = Inr batches"
  shows "\<forall>k < length batches.
           length (batches ! k) = length variables
           \<and> (\<forall>j < length variables.
                 batches ! k ! j =
                   py_slice (the (features (variables ! j)))
                     (k * nat batch_size) (k * nat batch_size + nat batch_size)
                 \<and> (\<forall>p < length (batches ! k ! j).
                       batches ! k ! j ! p =
                         the (features (variables ! j)) ! (k * nat batch_size + p)))"
proof (cases "0 < batch_size")
  case False
  then have "batches = []" using batch_Inr_cases [OF assms] by auto
  then show ?thesis by simp
next
  case True
  have ne: "variables \<noteq> []" and all: "list_all (\<lambda>v. features v \<noteq> None) variables"
    using batch_Inr_cases [OF assms] by simp_all
  have eq: "batches =
      map (\<lambda>k. map (\<lambda>v. py_slice (the (features v)) (k * nat batch_size)
                         (k * nat batch_size + nat batch_size)) variables)
        [0 ..< (length (the (features (hd variables))) + nat batch_size - 1) div nat batch_size]"
    using batch_closed_range [OF ne all True] assms by simp
  show ?thesis
    by (subst (1 2 3 4 5) eq) (auto simp: py_slice_def)
qed

theorem batch_alignment_witness:
  "batch ragged_features [''a'', ''b''] 2 = Inr [[[1, 2], [10, 20]], [[3, 4], [30]], [[5], []]]
   \<and> [[[1, 2], [10, 20]], [[3, 4], [30]], [[5], []]] ! 1 ! 0 ! 1 = the (ragged_features ''a'') ! 3
   \<and> [[[1, 2], [10, 20]], [[3, 4], [30]], [[5], []]] ! 1 ! 1 ! 0 = the (ragged_features ''b'') ! 2"
proof -
  have run: "batch ragged_features [''a'', ''b''] 2 =
      Inr [[[1, 2], [10, 20]], [[3, 4], [30]], [[5], []]]"
    by code_simp
  show ?thesis
    using batch_alignment [OF run] run by (simp add: ragged_features_def)
qed

text \<open>
  Claim C3. When the requested variable list contains a name absent from the
  FeatureSet, the Batcher raises before it yields any batch: the result is the
  \<open>AssertionError\<close> of \<open>assert variable in features\<close> (the spec's
  MissingVariableError), whatever the batch size.
\<close>

theorem batch_missing_variable:
  assumes "v \<in> set variables" and "features v = None"
  shows "batch features variables batch_size = Inl AssertionError"
proof -
  have "\<not> list_all (\<lambda>v. features v \<noteq> None) variables"
    using assms by (auto simp: list_all_iff)
  moreover have "variables \<noteq> []" using assms(1) by auto
  ultimately show ?thesis by (simp add: batch_def batch_st_closed)
qed

theorem batch_missing_variable_witness:
  "''c'' \<in> set [''a'', ''c''] \<and> ragged_features ''c'' = None
   \<and> batch ragged_features [''a'', ''c''] 2 = Inl AssertionError"
  using batch_missing_variable [of "''c''" "[''a'', ''c'']" ragged_features 2]
  by (simp add: ragged_features_def)

text \<open>
  Claim C9. The number of batches is \<open>ceil(n / batch_size)\<close> for the length \<open>n\<close>
  of the first requested variable's series, whatever the lengths of the others. No
  exception is raised for a series shorter than the first: its slice has at most as
  many rows as the first variable's slice in every batch, and strictly fewer in at
  least one batch.
\<close>

theorem batch_count_from_first_variable:
  assumes nonempty: "variables \<noteq> []"
    and present: "\<forall>v \<in> set variables. features v \<noteq> None"
    and positive: "0 < batch_size"
    and first: "features (hd variables) = Some first"
  shows "\<exists>batches. batch features variables batch_size = Inr batches
      \<and> int (length batches) = \<lceil>real (length first) / real_of_int batch_size\<rceil>
      \<and> (\<forall>j < length variables. \<forall>series.
            features (variables ! j) = Some series \<and> length series < length first \<longrightarrow>
              (\<forall>k < length batches. length (batches ! k ! j) \<le> length (batches ! k ! 0))
              \<and> (\<exists>k < length batches. length (batches ! k ! j) < length (batches ! k ! 0)))"
proof -
  define b where "b = nat batch_size"
  define N where "N = length first"
  define n where "n = (N + b - 1) div b"
  define batches where
    "batches = map (\<lambda>k. map (\<lambda>v. py_slice (the (features v)) (k * b) (k * b + b)) variables) [0 ..< n]"
  have b: "0 < b" using positive by (simp add: b_def)
  have all: "list_all (\<lambda>v. features v \<noteq> None) variables"
    using present by (auto simp: list_all_iff)
  have run: "batch features variables batch_size = Inr batches"
    using batch_closed_range [OF nonempty all positive] first
    by (simp add: batches_def b_def n_def N_def)
  have count: "length batches = n" by (simp add: batches_def)
  have ceil: "int n = \<lceil>real (length first) / real_of_int batch_size\<rceil>"
  proof -
    have "real b = real_of_int batch_size" using positive by (simp add: b_def)
    then show ?thesis using ceiling_div_nat [OF b, of N] by (simp add: n_def N_def)
  qed
  have v0: "variables ! 0 = hd variables" using nonempty by (simp add: hd_conv_nth)
  have len0: "\<And>k. k < n \<Longrightarrow> length (batches ! k ! 0) = min b (N - k * b)"
    using nonempty first v0 by (simp add: batches_def length_py_slice N_def)
  have short: "\<forall>j < length variables. \<forall>series.
      features (variables ! j) = Some series \<and> length series < length first \<longrightarrow>
        (\<forall>k < length batches. length (batches ! k ! j) \<le> length (batches ! k ! 0))
        \<and> (\<exists>k < length batches. length (batches ! k ! j) < length (batches ! k ! 0))"
  proof (intro allI impI)
    fix j series
    assume j: "j < length variables"
      and s: "features (variables ! j) = Some series \<and> length series < length first"
    define M where "M = length series"
    have M: "M < N" using s by (simp add: M_def N_def)
    have lenj: "\<And>k. k < n \<Longrightarrow> length (batches ! k ! j) = min b (M - k * b)"
      using j s by (simp add: batches_def length_py_slice M_def)
    have le: "\<forall>k < length batches. length (batches ! k ! j) \<le> length (batches ! k ! 0)"
      using M by (auto simp: count lenj len0 min_def)
    have npos: "0 < n"
    proof -
      have "b \<le> N + b - 1" using M by simp
      then show ?thesis unfolding n_def using b by (simp add: div_greater_zero_iff)
    qed
    define k where "k = n - 1"
    have k: "k < n" "n = Suc k" using npos by (simp_all add: k_def)
    have "k * b < N"
    proof -
      have "n * b \<le> N + b - 1" unfolding n_def by simp
      then show ?thesis using k(2) b by simp
    qed
    moreover have "N - k * b \<le> b"
    proof -
      have "N + b - 1 < Suc n * b"
        unfolding n_def using b by (simp add: dividend_less_div_times)
      then show ?thesis using k(2) by simp
    qed
    ultimately have "min b (M - k * b) < min b (N - k * b)"
      using M by (auto simp: min_def)
    then have "length (batches ! k ! j) < length (batches ! k ! 0)"
      using k(1) by (simp add: lenj len0)
    then have "\<exists>k < length batches. length (batches ! k ! j) < length (batches ! k ! 0)"
      using k(1) count by blast
    with le show "(\<forall>k < length batches. length (batches ! k ! j) \<le> length (batches ! k ! 0))
        \<and> (\<exists>k < length batches. length (batches ! k ! j) < length (batches ! k ! 0))"
      by blast
  qed
  show ?thesis using run count ceil short by blast
qed

theorem batch_count_from_first_variable_witness:
  "\<exists>batches. batch ragged_features [''a'', ''b''] 2 = Inr batches
     \<and> length batches = 3
     \<and> (\<exists>k < length batches. length (batches ! k ! 1) < length (batches ! k ! 0))"
proof -
  have first: "ragged_features (hd [''a'', ''b'']) = Some [1, 2, 3, 4, 5]"
    by (simp add: ragged_features_def)
  have present: "\<forall>v \<in> set [''a'', ''b'']. ragged_features v \<noteq> None"
    by (simp add: ragged_features_def)
  have ne: "[''a'', ''b''] \<noteq> []" by simp
  have pos: "(0::int) < 2" by simp
  obtain batches where run: "batch ragged_features [''a'', ''b''] 2 = Inr batches"
    and count: "int (length batches) = \<lceil>real (length [1, 2, 3, 4, 5::nat]) / real_of_int 2\<rceil>"
    and short: "\<forall>j < length [''a'', ''b'']. \<forall>series.
            ragged_features ([''a'', ''b''] ! j) = Some series
              \<and> length series < length [1, 2, 3, 4, 5::nat] \<longrightarrow>
              (\<forall>k < length batches. length (batches ! k ! j) \<le> length (batches ! k ! 0))
              \<and> (\<exists>k < length batches. length (batches ! k ! j) < length (batches ! k ! 0))"
    using batch_count_from_first_variable [of "[''a'', ''b'']" ragged_features 2, OF ne present pos first]
    by blast
  have "\<lceil>real (length [1, 2, 3, 4, 5::nat]) / real_of_int 2\<rceil> = (3::int)"
    by (rule ceiling_unique) simp_all
  then have len: "length batches = 3" using count by simp
  have "ragged_features ([''a'', ''b''] ! 1) = Some [10, 20, 30]
      \<and> length [10, 20, 30::nat] < length [1, 2, 3, 4, 5::nat]"
    by (simp add: ragged_features_def)
  with short have "\<exists>k < length batches. length (batches ! k ! 1) < length (batches ! k ! 0)"
    by (metis One_nat_def length_Cons lessI list.size(3) numeral_2_eq_2)
  with run len show ?thesis by blast
qed

section \<open>Properties of the stream writer\<close>

lemma write_samples_closed:
  "write_samples fmt b =
     (sample_lines fmt (takeWhile (\<lambda>s. length s = 48) b),
      if list_all (\<lambda>s. length s = 48) b then None else Some AssertionError)"
  by (induction b) (auto simp: sample_lines_def)

lemma write_samples_good:
  "list_all (\<lambda>s. length s = 48) b \<Longrightarrow> write_samples fmt b = (sample_lines fmt b, None)"
proof -
  assume "list_all (\<lambda>s. length s = 48) b"
  then have tw: "takeWhile (\<lambda>s. length s = 48) b = b"
    by (simp add: list_all_iff takeWhile_eq_all_conv)
  show ?thesis
    using \<open>list_all (\<lambda>s. length s = 48) b\<close> by (simp add: write_samples_closed tw)
qed

lemma write_samples_bad:
  assumes "list_all (\<lambda>s. length s = 48) good" and "length bad \<noteq> 48"
  shows "write_samples fmt (good @ bad # rest) = (sample_lines fmt good, Some AssertionError)"
proof -
  have tw: "takeWhile (\<lambda>s. length s = 48) (good @ bad # rest) = good"
    using assms by (simp add: list_all_iff takeWhile_append2)
  have "\<not> list_all (\<lambda>s. length s = 48) (good @ bad # rest)"
    using assms(2) by simp
  then show ?thesis by (simp add: write_samples_closed tw)
qed

lemma write_batches_yields:
  assumes "list_all (list_all (\<lambda>s. length s = 48)) done"
  shows "write_batches fmt (yields done g) =
     (concat (map (batch_events fmt) done) @ fst (write_batches fmt g), snd (write_batches fmt g))"
  using assms
  by (induction "done") (auto simp: write_samples_good batch_events_def split: prod.splits)

lemma set_join: "set (join sep xs) \<subseteq> set sep \<union> \<Union> (set ` set xs)"
  by (induction sep xs rule: join.induct) auto

lemma join_has_sep: "2 \<le> length xs \<Longrightarrow> set sep \<subseteq> set (join sep xs)"
  by (induction sep xs rule: join.induct) auto

lemma format_line_newline:
  assumes "\<And>x. CHR 0x0A \<notin> set (fmt x)"
  shows "count_list (format_line fmt sample) (CHR 0x0A) = 1"
proof -
  have "CHR 0x0A \<notin> set (join '','' (map fmt sample))"
    using set_join [of "'',''" "map fmt sample"] assms by auto
  then show ?thesis by (simp add: format_line_def count_list_0_iff)
qed

lemma format_line_not_ok:
  assumes "length sample = 48"
  shows "format_line fmt sample \<noteq> ''OK'' @ [CHR 0x0A]"
proof -
  have "CHR '','' \<in> set (format_line fmt sample)"
    using join_has_sep [of "map fmt sample" "'',''"] assms by (auto simp: format_line_def)
  then show ?thesis by auto
qed

lemma evaluate_opened:
  assumes "list_index argv 1 = Inr path" and "h5py_file path = Inr features"
  shows "evaluate fmt argv h5py_file predict_fn =
     (Write (''OK'' @ [CHR 0x0A]) # Flush # OpenInput
        # fst (write_batches fmt (predict_fn features)) @ [Close],
      snd (write_batches fmt (predict_fn features)))"
  using assms by (simp add: evaluate_def case_prod_beta)

lemma evaluate_yields:
  assumes "list_index argv 1 = Inr path" and "h5py_file path = Inr features"
    and "list_all (list_all (\<lambda>s. length s = 48)) done"
    and "predict_fn features = yields done g"
  shows "evaluate fmt argv h5py_file predict_fn =
     (Write (''OK'' @ [CHR 0x0A]) # Flush # OpenInput # concat (map (batch_events fmt) done)
        @ fst (write_batches fmt g) @ [Close],
      snd (write_batches fmt g))"
  using assms
  by (simp add: evaluate_opened [where path = path and features = features] write_batches_yields)

text \<open>
  Claim C4. A run whose earlier batches are written in full and whose next batch
  holds, after samples of length 48, a prediction vector of another length, ends
  with the \<open>AssertionError\<close> of \<open>assert sample.shape == (48,)\<close> (the spec's
  ShapeError): the samples before the vector are written, nothing is written for the
  vector or after it, and the batch is not flushed before the sink is closed. In a
  run whose vectors all have length 48 every sample is written by one \<open>write\<close>, and
  the text of a write is one line: it ends with the only newline it contains, when the
  formatting of a number yields no newline.
\<close>

theorem stream_writer_shape_check:
  "(list_index argv 1 = Inr path \<and> h5py_file path = Inr features
      \<and> list_all (list_all (\<lambda>s. length s = 48)) done \<and> list_all (\<lambda>s. length s = 48) good
      \<and> length bad \<noteq> 48 \<and> predict_fn features = yields done (Yield (good @ bad # rest) g)
    \<longrightarrow> evaluate fmt argv h5py_file predict_fn =
          (Write (''OK'' @ [CHR 0x0A]) # Flush # OpenInput # concat (map (batch_events fmt) done)
             @ Next # sample_lines fmt good @ [Close],
           Some AssertionError))
   \<and> (list_index argv 1 = Inr path \<and> h5py_file path = Inr features
      \<and> list_all (list_all (\<lambda>s. length s = 48)) batches \<and> predict_fn features = yields batches Stop
    \<longrightarrow> evaluate fmt argv h5py_file predict_fn =
          (Write (''OK'' @ [CHR 0x0A]) # Flush # OpenInput # concat (map (batch_events fmt) batches)
             @ [Next, Close],
           None))
   \<and> ((\<forall>x. CHR 0x0A \<notin> set (fmt x))
    \<longrightarrow> count_list (format_line fmt sample) (CHR 0x0A) = 1
        \<and> last (format_line fmt sample) = CHR 0x0A)"
proof (intro conjI impI)
  assume a: "list_index argv 1 = Inr path \<and> h5py_file path = Inr features
      \<and> list_all (list_all (\<lambda>s. length s = 48)) done \<and> list_all (\<lambda>s. length s = 48) good
      \<and> length bad \<noteq> 48 \<and> predict_fn features = yields done (Yield (good @ bad # rest) g)"
  then have "write_batches fmt (Yield (good @ bad # rest) g) =
      (Next # sample_lines fmt good, Some AssertionError)"
    by (simp add: write_samples_bad)
  then show "evaluate fmt argv h5py_file predict_fn =
          (Write (''OK'' @ [CHR 0x0A]) # Flush # OpenInput # concat (map (batch_events fmt) done)
             @ Next # sample_lines fmt good @ [Close],
           Some AssertionError)"
    using a
    by (simp add: evaluate_yields [where path = path and features = features
          and ?done = "done" and g = "Yield (good @ bad # rest) g"])
next
  assume a: "list_index argv 1 = Inr path \<and> h5py_file path = Inr features
      \<and> list_all (list_all (\<lambda>s. length s = 48)) batches
      \<and> predict_fn features = yields batches Stop"
  then show "evaluate fmt argv h5py_file predict_fn =
          (Write (''OK'' @ [CHR 0x0A]) # Flush # OpenInput # concat (map (batch_events fmt) batches)
             @ [Next, Close],
           None)"
    by (simp add: evaluate_yields [where path = path and features = features
          and ?done = batches and g = Stop])
next
  assume "\<forall>x. CHR 0x0A \<notin> set (fmt x)"
  then show "count_list (format_line fmt sample) (CHR 0x0A) = 1"
    by (simp add: format_line_newline)
next
  show "last (format_line fmt sample) = CHR 0x0A"
    by (simp add: format_line_def)
qed

lemma example_argv:
  "list_index [''run.py'', ''features.hdf5''] 1 = Inr ''features.hdf5''"
  "example_h5py_file ''features.hdf5'' = Inr ragged_features"
  by (simp_all add: list_index_def example_h5py_file_def)

theorem stream_writer_shape_check_witness:
  "evaluate example_fmt [''run.py'', ''features.hdf5''] example_h5py_file short_vector_run =
     (Write (''OK'' @ [CHR 0x0A]) # Flush # OpenInput # batch_events example_fmt [replicate 48 N0]
        @ Next # sample_lines example_fmt [replicate 48 N1] @ [Close],
      Some AssertionError)
   \<and> evaluate example_fmt [''run.py'', ''features.hdf5''] example_h5py_file good_run =
     (Write (''OK'' @ [CHR 0x0A]) # Flush # OpenInput
        # batch_events example_fmt [replicate 48 N0, replicate 48 N1]
        @ batch_events example_fmt [replicate 48 N1] @ [Next, Close],
      None)
   \<and> count_list (format_line example_fmt (replicate 48 N0)) (CHR 0x0A) = 1"
proof -
  have nl: "\<forall>x. CHR 0x0A \<notin> set (example_fmt x)"
  proof
    fix x show "CHR 0x0A \<notin> set (example_fmt x)" by (cases x) simp_all
  qed
  have bad: "list_index [''run.py'', ''features.hdf5''] 1 = Inr ''features.hdf5''
      \<and> example_h5py_file ''features.hdf5'' = Inr ragged_features
      \<and> list_all (list_all (\<lambda>s. length s = 48)) [[replicate 48 N0]]
      \<and> list_all (\<lambda>s. length s = 48) [replicate 48 N1]
      \<and> length (replicate 47 N0) \<noteq> 48
      \<and> short_vector_run ragged_features =
          yields [[replicate 48 N0]]
            (Yield ([replicate 48 N1] @ replicate 47 N0 # [replicate 48 N0])
               (Yield [replicate 48 N0] Stop))"
    by (simp add: short_vector_run_def list_index_def example_h5py_file_def)
  have good: "list_index [''run.py'', ''features.hdf5''] 1 = Inr ''features.hdf5''
      \<and> example_h5py_file ''features.hdf5'' = Inr ragged_features
      \<and> list_all (list_all (\<lambda>s. length s = 48))
        [[replicate 48 N0, replicate 48 N1], [replicate 48 N1]]
      \<and> good_run ragged_features =
          yields [[replicate 48 N0, replicate 48 N1], [replicate 48 N1]] Stop"
    by (simp add: good_run_def list_index_def example_h5py_file_def)
  have 1: "evaluate example_fmt [''run.py'', ''features.hdf5''] example_h5py_file short_vector_run =
     (Write (''OK'' @ [CHR 0x0A]) # Flush # OpenInput # batch_events example_fmt [replicate 48 N0]
        @ Next # sample_lines example_fmt [replicate 48 N1] @ [Close],
      Some AssertionError)"
    using stream_writer_shape_check [where argv = "[''run.py'', ''features.hdf5'']"
        and path = "''features.hdf5''" and h5py_file = example_h5py_file
        and ?done = "[[replicate 48 N0]]"
        and good = "[replicate 48 N1]" and bad = "replicate 47 N0" and rest = "[replicate 48 N0]"
        and g = "Yield [replicate 48 N0] Stop" and predict_fn = short_vector_run
        and features = ragged_features and fmt = example_fmt, THEN conjunct1] bad
    by simp
  have 2: "evaluate example_fmt [''run.py'', ''features.hdf5''] example_h5py_file good_run =
     (Write (''OK'' @ [CHR 0x0A]) # Flush # OpenInput
        # batch_events example_fmt [replicate 48 N0, replicate 48 N1]
        @ batch_events example_fmt [replicate 48 N1] @ [Next, Close],
      None)"
    using stream_writer_shape_check [where argv = "[''run.py'', ''features.hdf5'']"
        and path = "''features.hdf5''" and h5py_file = example_h5py_file
        and batches = "[[replicate 48 N0, replicate 48 N1], [replicate 48 N1]]"
        and predict_fn = good_run and features = ragged_features and fmt = example_fmt,
        THEN conjunct2, THEN conjunct1] good
    by simp
  have 3: "count_list (format_line example_fmt (replicate 48 N0)) (CHR 0x0A) = 1"
    using stream_writer_shape_check [where fmt = example_fmt and sample = "replicate 48 N0",
        THEN conjunct2, THEN conjunct2] nl
    by simp
  show ?thesis using 1 2 3 by blast
qed

lemma filter_sample_lines: "filter is_write_or_flush (sample_lines fmt b) = sample_lines fmt b"
  by (induction b) (simp_all add: sample_lines_def)

lemma write_batches_sink:
  "writes_and_flushes (fst (write_batches fmt g)) =
     concat (map (\<lambda>b. sample_lines fmt b @ [Flush])
               (takeWhile (list_all (\<lambda>s. length s = 48)) (gen_batches g)))
     @ (case dropWhile (list_all (\<lambda>s. length s = 48)) (gen_batches g) of
          [] \<Rightarrow> []
        | b # _ \<Rightarrow> sample_lines fmt (takeWhile (\<lambda>s. length s = 48) b))"
proof (induction g)
  case Stop
  then show ?case by (simp add: writes_and_flushes_def)
next
  case (Raise e)
  then show ?case by (simp add: writes_and_flushes_def)
next
  case (Yield b g)
  show ?case
  proof (cases "list_all (\<lambda>s. length s = 48) b")
    case True
    then show ?thesis
      using Yield
      by (simp add: write_samples_good writes_and_flushes_def filter_sample_lines case_prod_beta)
  next
    case False
    then show ?thesis
      by (simp add: write_samples_closed writes_and_flushes_def filter_sample_lines)
  qed
qed

lemma write_batches_no_ok:
  "Write (''OK'' @ [CHR 0x0A]) \<notin> set (fst (write_batches fmt g))"
proof (induction g)
  case (Yield b g)
  have "Write (''OK'' @ [CHR 0x0A]) \<notin> set (sample_lines fmt (takeWhile (\<lambda>s. length s = 48) b))"
  proof
    assume "Write (''OK'' @ [CHR 0x0A]) \<in> set (sample_lines fmt (takeWhile (\<lambda>s. length s = 48) b))"
    then obtain s where "s \<in> set (takeWhile (\<lambda>s. length s = 48) b)"
      and eq: "format_line fmt s = ''OK'' @ [CHR 0x0A]"
      by (auto simp: sample_lines_def)
    then have "length s = 48" by (auto dest: set_takeWhileD)
    then show False using format_line_not_ok [of s fmt] eq by simp
  qed
  with Yield show ?case
    by (auto simp: write_samples_closed case_prod_beta split: if_splits)
qed simp_all

text \<open>
  Claim C5. In every run of \<open>evaluate\<close> the writes and flushes are: the line
  \<open>OK\<close> and a flush; then, for every batch written in full, its lines followed by
  exactly one flush; then, if a batch holds a vector of the wrong length, the lines
  of the samples before that vector and no flush. The line \<open>OK\<close> is written once.
  A run with no argument or with an input that cannot be opened writes and flushes
  nothing after the line \<open>OK\<close>.
\<close>

theorem stream_writer_protocol:
  "writes_and_flushes (fst (evaluate fmt argv h5py_file predict_fn)) =
     Write (''OK'' @ [CHR 0x0A]) # Flush #
     (case list_index argv 1 of
        Inl e \<Rightarrow> []
      | Inr path \<Rightarrow>
          (case h5py_file path of
             Inl e \<Rightarrow> []
           | Inr features \<Rightarrow>
               concat (map (\<lambda>b. sample_lines fmt b @ [Flush])
                         (takeWhile (list_all (\<lambda>s. length s = 48))
                            (gen_batches (predict_fn features))))
               @ (case dropWhile (list_all (\<lambda>s. length s = 48))
                         (gen_batches (predict_fn features)) of
                    [] \<Rightarrow> []
                  | b # _ \<Rightarrow> sample_lines fmt (takeWhile (\<lambda>s. length s = 48) b))))
   \<and> count_list (fst (evaluate fmt argv h5py_file predict_fn)) (Write (''OK'' @ [CHR 0x0A])) = 1"
proof (cases "list_index argv 1")
  case (Inl e)
  then show ?thesis by (simp add: evaluate_def writes_and_flushes_def)
next
  case path: (Inr path)
  show ?thesis
  proof (cases "h5py_file path")
    case (Inl e)
    then show ?thesis using path by (simp add: evaluate_def writes_and_flushes_def)
  next
    case (Inr features)
    note opened = evaluate_opened [where argv = argv and path = path and h5py_file = h5py_file
        and features = features and fmt = fmt and predict_fn = predict_fn, OF path Inr]
    have sink: "writes_and_flushes (fst (evaluate fmt argv h5py_file predict_fn)) =
        Write (''OK'' @ [CHR 0x0A]) # Flush #
          writes_and_flushes (fst (write_batches fmt (predict_fn features)))"
      by (simp add: opened writes_and_flushes_def)
    have "count_list (fst (write_batches fmt (predict_fn features)))
        (Write (''OK'' @ [CHR 0x0A])) = 0"
      using write_batches_no_ok [of fmt "predict_fn features"] by (simp add: count_list_0_iff)
    then have one: "count_list (fst (evaluate fmt argv h5py_file predict_fn))
        (Write (''OK'' @ [CHR 0x0A])) = 1"
      by (simp add: opened)
    have "writes_and_flushes (fst (evaluate fmt argv h5py_file predict_fn)) =
        Write (''OK'' @ [CHR 0x0A]) # Flush #
          (concat (map (\<lambda>b. sample_lines fmt b @ [Flush])
                     (takeWhile (list_all (\<lambda>s. length s = 48)) (gen_batches (predict_fn features))))
           @ (case dropWhile (list_all (\<lambda>s. length s = 48)) (gen_batches (predict_fn features)) of
                [] \<Rightarrow> []
              | b # _ \<Rightarrow> sample_lines fmt (takeWhile (\<lambda>s. length s = 48) b)))"
      by (simp only: sink write_batches_sink)
    moreover have "list_index argv (Suc 0) = Inr path" using path by simp
    ultimately show ?thesis
      using one by (simp add: Inr)
  qed
qed

theorem stream_writer_protocol_witness:
  "writes_and_flushes
     (fst (evaluate example_fmt [''run.py'', ''features.hdf5''] example_h5py_file short_vector_run)) =
     [Write (''OK'' @ [CHR 0x0A]), Flush,
      Write (format_line example_fmt (replicate 48 N0)), Flush,
      Write (format_line example_fmt (replicate 48 N1))]"
proof -
  have "gen_batches (short_vector_run ragged_features) =
      [[replicate 48 N0], [replicate 48 N1, replicate 47 N0, replicate 48 N0], [replicate 48 N0]]"
    by (simp add: short_vector_run_def)
  then show ?thesis
    using stream_writer_protocol [of example_fmt "[''run.py'', ''features.hdf5'']"
        example_h5py_file short_vector_run]
    by (simp add: sample_lines_def list_index_def example_h5py_file_def)
qed

lemma write_batches_starts:
  "\<exists>events. fst (write_batches fmt g) = Next # events"
  by (cases g) (auto simp: case_prod_beta split: option.splits)

text \<open>
  Claim C10. Every run of \<open>evaluate\<close> starts with the write of \<open>OK\<close> and the
  flush. When the input file is opened at all, exactly these two events precede the
  call of \<open>h5py.File\<close>; when a prediction is requested at all, exactly these two and
  the opening of the input precede the first request. When the opening of the input
  fails, or the first request for a prediction raises, the run ends with that
  exception after closing the sink, and the sink holds the text \<open>OK\<close> and nothing
  else; the same holds when no argument was given, where \<open>sys.argv[1]\<close> raises before
  \<open>h5py.File\<close> is called.
\<close>

theorem readiness_before_input:
  "take 2 (fst (evaluate fmt argv h5py_file predict_fn)) = [Write (''OK'' @ [CHR 0x0A]), Flush]
   \<and> (OpenInput \<in> set (fst (evaluate fmt argv h5py_file predict_fn)) \<longrightarrow>
        takeWhile (\<lambda>event. event \<noteq> OpenInput) (fst (evaluate fmt argv h5py_file predict_fn)) =
          [Write (''OK'' @ [CHR 0x0A]), Flush])
   \<and> (Next \<in> set (fst (evaluate fmt argv h5py_file predict_fn)) \<longrightarrow>
        takeWhile (\<lambda>event. event \<noteq> Next) (fst (evaluate fmt argv h5py_file predict_fn)) =
          [Write (''OK'' @ [CHR 0x0A]), Flush, OpenInput])
   \<and> (list_index argv 1 = Inr path \<and> h5py_file path = Inl e \<longrightarrow>
        evaluate fmt argv h5py_file predict_fn =
          ([Write (''OK'' @ [CHR 0x0A]), Flush, OpenInput, Close], Some e)
        \<and> sink_text (fst (evaluate fmt argv h5py_file predict_fn)) = ''OK'' @ [CHR 0x0A])
   \<and> (list_index argv 1 = Inr path \<and> h5py_file path = Inr features
        \<and> predict_fn features = Raise e \<longrightarrow>
        evaluate fmt argv h5py_file predict_fn =
          ([Write (''OK'' @ [CHR 0x0A]), Flush, OpenInput, Next, Close], Some e)
        \<and> sink_text (fst (evaluate fmt argv h5py_file predict_fn)) = ''OK'' @ [CHR 0x0A])
   \<and> (list_index argv 1 = Inl e \<longrightarrow>
        evaluate fmt argv h5py_file predict_fn =
          ([Write (''OK'' @ [CHR 0x0A]), Flush, Close], Some e)
        \<and> sink_text (fst (evaluate fmt argv h5py_file predict_fn)) = ''OK'' @ [CHR 0x0A])"
proof -
  let ?trace = "fst (evaluate fmt argv h5py_file predict_fn)"
  let ?ok = "Write (''OK'' @ [CHR 0x0A])"
  have shape: "?trace = [?ok, Flush, Close]
      \<or> ?trace = [?ok, Flush, OpenInput, Close]
      \<or> (\<exists>events. ?trace = ?ok # Flush # OpenInput # Next # events)"
  proof (cases "list_index argv 1")
    case (Inl e')
    then show ?thesis by (simp add: evaluate_def)
  next
    case p: (Inr path')
    show ?thesis
    proof (cases "h5py_file path'")
      case (Inl e')
      then show ?thesis using p by (simp add: evaluate_def)
    next
      case (Inr features')
      obtain events where "fst (write_batches fmt (predict_fn features')) = Next # events"
        using write_batches_starts by blast
      then show ?thesis
        by (simp add: evaluate_opened [where argv = argv and path = path'
              and h5py_file = h5py_file and features = features', OF p Inr])
    qed
  qed
  have first: "take 2 ?trace = [?ok, Flush]"
    using shape by auto
  have before_open: "OpenInput \<in> set ?trace \<longrightarrow>
      takeWhile (\<lambda>event. event \<noteq> OpenInput) ?trace = [?ok, Flush]"
    using shape by auto
  have before_next: "Next \<in> set ?trace \<longrightarrow>
      takeWhile (\<lambda>event. event \<noteq> Next) ?trace = [?ok, Flush, OpenInput]"
    using shape by auto
  have open_fails: "list_index argv 1 = Inr path \<and> h5py_file path = Inl e \<longrightarrow>
      evaluate fmt argv h5py_file predict_fn = ([?ok, Flush, OpenInput, Close], Some e)
      \<and> sink_text ?trace = ''OK'' @ [CHR 0x0A]"
    by (simp add: evaluate_def)
  have predict_fails: "list_index argv 1 = Inr path \<and> h5py_file path = Inr features
        \<and> predict_fn features = Raise e \<longrightarrow>
      evaluate fmt argv h5py_file predict_fn = ([?ok, Flush, OpenInput, Next, Close], Some e)
      \<and> sink_text ?trace = ''OK'' @ [CHR 0x0A]"
    by (simp add: evaluate_def)
  have no_argument: "list_index argv 1 = Inl e \<longrightarrow>
      evaluate fmt argv h5py_file predict_fn = ([?ok, Flush, Close], Some e)
      \<and> sink_text ?trace = ''OK'' @ [CHR 0x0A]"
    by (simp add: evaluate_def)
  show ?thesis
    using first before_open before_next open_fails predict_fails no_argument by blast
qed

theorem readiness_before_input_witness:
  "evaluate example_fmt [''run.py'', ''missing.hdf5''] example_h5py_file (predict zero_vectors) =
     ([Write (''OK'' @ [CHR 0x0A]), Flush, OpenInput, Close], Some FileNotFoundError)
   \<and> evaluate example_fmt [''run.py'', ''features.hdf5''] example_h5py_file (predict zero_vectors) =
     ([Write (''OK'' @ [CHR 0x0A]), Flush, OpenInput, Next, Close], Some AssertionError)
   \<and> evaluate example_fmt [''run.py''] example_h5py_file (predict zero_vectors) =
     ([Write (''OK'' @ [CHR 0x0A]), Flush, Close], Some IndexError)
   \<and> takeWhile (\<lambda>event. event \<noteq> Next)
        (fst (evaluate example_fmt [''run.py'', ''features.hdf5''] example_h5py_file
           (predict zero_vectors))) =
     [Write (''OK'' @ [CHR 0x0A]), Flush, OpenInput]
   \<and> takeWhile (\<lambda>event. event \<noteq> OpenInput)
        (fst (evaluate example_fmt [''run.py'', ''missing.hdf5''] example_h5py_file
           (predict zero_vectors))) =
     [Write (''OK'' @ [CHR 0x0A]), Flush]"
proof -
  have "batch ragged_features [''pv'', ''hrv''] 32 = Inl AssertionError"
    by code_simp
  then have raise: "predict zero_vectors ragged_features = Raise AssertionError"
    by (simp add: predict_def)
  have missing: "list_index [''run.py'', ''missing.hdf5''] 1 = Inr ''missing.hdf5''
      \<and> example_h5py_file ''missing.hdf5'' = Inl FileNotFoundError"
    by (simp add: list_index_def example_h5py_file_def)
  have no_argument: "list_index [''run.py''] 1 = Inl IndexError"
    by (simp add: list_index_def)
  have 1: "evaluate example_fmt [''run.py'', ''missing.hdf5''] example_h5py_file
        (predict zero_vectors) =
      ([Write (''OK'' @ [CHR 0x0A]), Flush, OpenInput, Close], Some FileNotFoundError)"
    using readiness_before_input [where argv = "[''run.py'', ''missing.hdf5'']"
        and path = "''missing.hdf5''" and h5py_file = example_h5py_file
        and e = FileNotFoundError and fmt = example_fmt and predict_fn = "predict zero_vectors"]
      missing
    by blast
  have 2: "evaluate example_fmt [''run.py'', ''features.hdf5''] example_h5py_file
        (predict zero_vectors) =
      ([Write (''OK'' @ [CHR 0x0A]), Flush, OpenInput, Next, Close], Some AssertionError)"
    using readiness_before_input [where argv = "[''run.py'', ''features.hdf5'']"
        and path = "''features.hdf5''" and h5py_file = example_h5py_file
        and features = ragged_features
        and e = AssertionError and fmt = example_fmt and predict_fn = "predict zero_vectors"]
      example_argv raise
    by blast
  have 3: "evaluate example_fmt [''run.py''] example_h5py_file (predict zero_vectors) =
      ([Write (''OK'' @ [CHR 0x0A]), Flush, Close], Some IndexError)"
    using readiness_before_input [where argv = "[''run.py'']"
        and h5py_file = example_h5py_file
        and e = IndexError and fmt = example_fmt and predict_fn = "predict zero_vectors"]
      no_argument
    by blast
  have 4: "takeWhile (\<lambda>event. event \<noteq> Next)
        (fst (evaluate example_fmt [''run.py'', ''features.hdf5''] example_h5py_file
           (predict zero_vectors))) =
      [Write (''OK'' @ [CHR 0x0A]), Flush, OpenInput]"
    by (simp add: 2)
  have 5: "takeWhile (\<lambda>event. event \<noteq> OpenInput)
        (fst (evaluate example_fmt [''run.py'', ''missing.hdf5''] example_h5py_file
           (predict zero_vectors))) =
      [Write (''OK'' @ [CHR 0x0A]), Flush]"
    by (simp add: 1)
  show ?thesis using 1 2 3 4 5 by blast
qed

section \<open>Properties of the validation script\<close>

lemma collect_yields:
  "list_all (\<lambda>b. shape1 b = 48) batches \<Longrightarrow>
   collect (yields batches g) predictions = collect g (predictions @ batches)"
  by (induction batches arbitrary: predictions) simp_all

lemma concatenate_closed:
  assumes "list_all (\<lambda>b. shape1 b = 48) (a # rest)"
  shows "concatenate (a # rest) =
     Inr \<lparr>shape0 = sum_list (map shape0 (a # rest)), shape1 = 48, item = concat_item a rest\<rparr>"
  using assms by (simp add: concatenate_def)

lemma concat_item_rows:
  assumes "i < sum_list (map shape0 (a # rest))" and "j < n"
    and "list_all (\<lambda>b. shape1 b = n) (a # rest)"
  shows "concat_item a rest i j = concat (map array_rows (a # rest)) ! i ! j"
  using assms
proof (induction a rest i j rule: concat_item.induct)
  case (1 a i j)
  then show ?case by (simp add: array_rows_def)
next
  case (2 a b rest i j)
  have len: "length (array_rows a) = shape0 a" by (simp add: array_rows_def)
  show ?case
  proof (cases "i < shape0 a")
    case True
    then show ?thesis using 2 by (simp add: nth_append len) (simp add: array_rows_def)
  next
    case False
    then show ?thesis using 2 by (simp add: nth_append len)
  qed
qed

lemma main_collected:
  assumes "data = Inr d" and "evaluator = Inr predict_fn"
    and "predict_fn d = yields batches Stop"
    and "list_all (\<lambda>b. shape1 b = 48) batches"
    and "targets d = Some t"
  shows "main np data evaluator targets =
     (case concatenate batches of
        Inl e \<Rightarrow> ([], Some e)
      | Inr p \<Rightarrow>
          (case array_subtract np t p of
             Inl e \<Rightarrow> ([], Some e)
           | Inr diff \<Rightarrow> ([MAE (np_mean np (flatten (array_absolute np diff)))], None)))"
  using assms by (simp add: main_def collect_yields)

lemma flatten_const:
  "flatten \<lparr>shape0 = m, shape1 = n, item = (\<lambda>i j. x)\<rparr> = replicate (m * n) x"
proof -
  have "concat (map (\<lambda>i. replicate n x) [0 ..< m]) = replicate (m * n) x"
    by (induction m) (simp_all add: replicate_add [symmetric] add.commute)
  then show ?thesis by (simp add: flatten_def map_replicate_const)
qed

lemma exact_mean_replicate:
  "0 < k \<Longrightarrow> np_mean exact_numpy (replicate k x) = x"
  by (simp add: exact_numpy_def sum_list_replicate)

lemma flatten_cong:
  assumes "shape0 a = shape0 b" and "shape1 a = shape1 b"
    and "\<And>i j. i < shape0 a \<Longrightarrow> j < shape1 a \<Longrightarrow> item a i j = item b i j"
  shows "flatten a = flatten b"
proof -
  have "map (\<lambda>i. map (item a i) [0 ..< shape1 a]) [0 ..< shape0 a] =
      map (\<lambda>i. map (item b i) [0 ..< shape1 a]) [0 ..< shape0 a]"
    by (intro map_cong refl) (simp add: assms(3))
  then have "map (\<lambda>i. map (item a i) [0 ..< shape1 a]) [0 ..< shape0 a] =
      map (\<lambda>i. map (item b i) [0 ..< shape1 b]) [0 ..< shape0 b]"
    by (simp only: assms(1,2))
  then show ?thesis unfolding flatten_def by (rule arg_cong)
qed

lemma flatten_rows: "flatten a = concat (array_rows a)"
  by (simp add: flatten_def array_rows_def)

lemma length_concat_rows:
  "length (concat (map array_rows batches)) = sum_list (map shape0 batches)"
  by (induction batches) (simp_all add: array_rows_def)

lemma length_concat_rows_nth:
  assumes "list_all (\<lambda>b. shape1 b = n) batches" and "i < sum_list (map shape0 batches)"
  shows "length (concat (map array_rows batches) ! i) = n"
proof -
  have "\<forall>r \<in> set (concat (map array_rows batches)). length r = n"
    using assms(1) by (auto simp: list_all_iff array_rows_def)
  moreover have "concat (map array_rows batches) ! i \<in> set (concat (map array_rows batches))"
    using assms(2) by (intro nth_mem) (simp only: length_concat_rows)
  ultimately show ?thesis by blast
qed

lemma broadcast_index_same: "i < n \<Longrightarrow> broadcast_index n i = i"
  by (simp add: broadcast_index_def)

lemma subtract_same_shape:
  assumes "shape0 a = shape0 b" and "shape1 a = shape1 b"
  shows "\<exists>diff. array_subtract np a b = Inr diff \<and> shape0 diff = shape0 a \<and> shape1 diff = shape1 a
     \<and> (\<forall>i < shape0 a. \<forall>j < shape1 a.
           item diff i j = np_subtract np (item a i j) (item b i j))"
  using assms
  by (simp add: array_subtract_def broadcastable_def broadcast_dim_def broadcast_index_same)

lemma main_same_shape:
  assumes "data = Inr d" and "evaluator = Inr predict_fn"
    and "predict_fn d = yields (a # rest) Stop"
    and "list_all (\<lambda>b. shape1 b = 48) (a # rest)"
    and "targets d = Some t"
    and "shape0 t = sum_list (map shape0 (a # rest))" and "shape1 t = 48"
  shows "main np data evaluator targets =
     ([MAE (np_mean np (flatten
         \<lparr>shape0 = shape0 t, shape1 = 48,
          item = (\<lambda>i j. np_absolute np (np_subtract np (item t i j) (concat_item a rest i j)))\<rparr>))],
      None)"
proof -
  let ?p = "\<lparr>shape0 = sum_list (map shape0 (a # rest)), shape1 = 48, item = concat_item a rest\<rparr>"
  have cat: "concatenate (a # rest) = Inr ?p"
    using assms(4) by (rule concatenate_closed)
  obtain diff where diff: "array_subtract np t ?p = Inr diff"
    and s0: "shape0 diff = shape0 t" and s1: "shape1 diff = shape1 t"
    and it: "\<forall>i < shape0 t. \<forall>j < shape1 t.
           item diff i j = np_subtract np (item t i j) (item ?p i j)"
    using subtract_same_shape [of t ?p np] assms(6,7) by auto
  have "flatten (array_absolute np diff) =
      flatten \<lparr>shape0 = shape0 t, shape1 = 48,
          item = (\<lambda>i j. np_absolute np (np_subtract np (item t i j) (concat_item a rest i j)))\<rparr>"
    by (rule flatten_cong) (use s0 s1 it assms(7) in \<open>simp_all add: array_absolute_def\<close>)
  then show ?thesis
    using main_collected [of data d evaluator predict_fn "a # rest" targets t np] assms(1-5) cat diff
    by simp
qed

lemma rows_zip:
  assumes "list_all (\<lambda>b. shape1 b = 48) (a # rest)"
    and "shape0 t = sum_list (map shape0 (a # rest))" and "shape1 t = 48"
  shows "array_rows \<lparr>shape0 = shape0 t, shape1 = 48,
            item = (\<lambda>i j. f (item t i j) (concat_item a rest i j))\<rparr> =
         map2 (map2 f) (array_rows t) (concat (map array_rows (a # rest)))"
proof (rule nth_equalityI)
  show "length (array_rows \<lparr>shape0 = shape0 t, shape1 = 48,
            item = (\<lambda>i j. f (item t i j) (concat_item a rest i j))\<rparr>) =
        length (map2 (map2 f) (array_rows t) (concat (map array_rows (a # rest))))"
    using assms(2) by (simp add: length_concat_rows) (simp add: array_rows_def)
next
  fix i
  assume "i < length (array_rows \<lparr>shape0 = shape0 t, shape1 = 48,
            item = (\<lambda>i j. f (item t i j) (concat_item a rest i j))\<rparr>)"
  then have i: "i < shape0 t" by (simp add: array_rows_def)
  then have i': "i < sum_list (map shape0 (a # rest))" using assms(2) by simp
  let ?P = "concat (map array_rows (a # rest))"
  have lenP: "length ?P = shape0 t" using assms(2) by (simp only: length_concat_rows)
  have lenPi: "length (?P ! i) = 48" using assms(1) i' by (rule length_concat_rows_nth)
  have Ti: "array_rows t ! i = map (item t i) [0 ..< 48]"
    using i assms(3) by (simp add: array_rows_def)
  have "map2 (map2 f) (array_rows t) ?P ! i = map2 f (array_rows t ! i) (?P ! i)"
    using i lenP by (simp add: array_rows_def)
  also have "\<dots> = map (\<lambda>j. f (item t i j) (concat_item a rest i j)) [0 ..< 48]"
  proof (rule nth_equalityI)
    show "length (map2 f (array_rows t ! i) (?P ! i)) =
        length (map (\<lambda>j. f (item t i j) (concat_item a rest i j)) [0 ..< 48])"
      using lenPi Ti by simp
  next
    fix j assume "j < length (map2 f (array_rows t ! i) (?P ! i))"
    then have j: "j < 48" using lenPi Ti by simp
    have "concat_item a rest i j = ?P ! i ! j"
      using i' j assms(1) by (rule concat_item_rows)
    then show "map2 f (array_rows t ! i) (?P ! i) ! j =
        map (\<lambda>j. f (item t i j) (concat_item a rest i j)) [0 ..< 48] ! j"
      using j lenPi Ti by simp
  qed
  finally show "array_rows \<lparr>shape0 = shape0 t, shape1 = 48,
            item = (\<lambda>i j. f (item t i j) (concat_item a rest i j))\<rparr> ! i =
        map2 (map2 f) (array_rows t) ?P ! i"
    using i by (simp add: array_rows_def)
qed

lemma concat_item_const:
  assumes "\<forall>b \<in> set (a # rest). \<forall>i < shape0 b. \<forall>j < n. item b i j = z"
    and "i < sum_list (map shape0 (a # rest))" and "j < n"
  shows "concat_item a rest i j = z"
  using assms
proof (induction a rest i j rule: concat_item.induct)
  case (1 a i j)
  then show ?case by simp
next
  case (2 a b rest i j)
  show ?case
  proof (cases "i < shape0 a")
    case True
    then show ?thesis using 2 by simp
  next
    case False
    then show ?thesis using 2 by simp
  qed
qed

lemma validation_predict:
  "predict zero_model validation_features = yields [full 10 48 0] Stop"
proof -
  have "batch validation_features [''pv'', ''hrv''] 32 = Inr [[[0 ..< 10], [0 ..< 10]]]"
    by code_simp
  then show ?thesis by (simp add: predict_def zero_model_def)
qed

lemma two_sample_predict:
  "predict zero_model two_sample_features = yields [full 2 48 0] Stop"
proof -
  have "batch two_sample_features [''pv'', ''hrv''] 32 = Inr [[[0, 1], [0, 1]]]"
    by code_simp
  then show ?thesis by (simp add: predict_def zero_model_def full_def)
qed

text \<open>
  Claim C6. In a validation run whose predictor yields at least one batch, all of
  second dimension 48, and whose targets have the shape of the concatenated
  predictions, the script prints \<open>np.mean\<close> of the absolute values of the
  differences between each target and the prediction at the same row and column,
  the rows of the predictions being those of the batches in order. When the targets
  and the predictions are all a number \<open>z\<close> with \<open>z - z = z\<close>, \<open>|z| = z\<close> and
  mean \<open>z\<close> over that many copies of \<open>z\<close> (as for the float \<open>0.0\<close>), the printed
  metric is \<open>z\<close>.
\<close>

theorem validation_mae:
  assumes "data = Inr d" and "evaluator = Inr predict_fn"
    and "predict_fn d = yields batches Stop" and "batches \<noteq> []"
    and "list_all (\<lambda>b. shape1 b = 48) batches"
    and "targets d = Some t"
    and "shape0 t = sum_list (map shape0 batches)" and "shape1 t = 48"
  shows "main np data evaluator targets =
      ([MAE (np_mean np (concat
          (map2 (map2 (\<lambda>x y. np_absolute np (np_subtract np x y)))
             (array_rows t) (concat (map array_rows batches)))))],
       None)
    \<and> (np_subtract np z z = z \<and> np_absolute np z = z
        \<and> np_mean np (replicate (shape0 t * 48) z) = z
        \<and> (\<forall>i < shape0 t. \<forall>j < 48. item t i j = z)
        \<and> (\<forall>b \<in> set batches. \<forall>i < shape0 b. \<forall>j < 48. item b i j = z)
       \<longrightarrow> main np data evaluator targets = ([MAE z], None))"
proof -
  obtain a rest where ar: "batches = a # rest" using assms(4) by (cases batches) auto
  let ?f = "\<lambda>x y. np_absolute np (np_subtract np x y)"
  let ?diff = "\<lparr>shape0 = shape0 t, shape1 = 48,
      item = (\<lambda>i j. ?f (item t i j) (concat_item a rest i j))\<rparr>"
  have run: "main np data evaluator targets = ([MAE (np_mean np (flatten ?diff))], None)"
    using assms ar by (intro main_same_shape [of data d evaluator predict_fn a rest targets t np]) simp_all
  have "flatten ?diff = concat (array_rows ?diff)" by (rule flatten_rows)
  also have "array_rows ?diff = map2 (map2 ?f) (array_rows t) (concat (map array_rows (a # rest)))"
    using assms(5,7,8) unfolding ar by (rule rows_zip)
  finally have first: "main np data evaluator targets =
      ([MAE (np_mean np (concat
          (map2 (map2 ?f) (array_rows t) (concat (map array_rows batches)))))], None)"
    using run ar by simp
  have second: "main np data evaluator targets = ([MAE z], None)"
    if z: "np_subtract np z z = z \<and> np_absolute np z = z
        \<and> np_mean np (replicate (shape0 t * 48) z) = z
        \<and> (\<forall>i < shape0 t. \<forall>j < 48. item t i j = z)
        \<and> (\<forall>b \<in> set batches. \<forall>i < shape0 b. \<forall>j < 48. item b i j = z)"
  proof -
    have items: "\<And>i j. i < shape0 t \<Longrightarrow> j < 48 \<Longrightarrow> concat_item a rest i j = z"
    proof -
      fix i j :: nat assume "i < shape0 t" "j < 48"
      then show "concat_item a rest i j = z"
        using z assms(7) ar by (intro concat_item_const [where n = 48]) simp_all
    qed
    have "flatten ?diff = flatten \<lparr>shape0 = shape0 t, shape1 = 48, item = (\<lambda>i j. z)\<rparr>"
      by (rule flatten_cong) (use z items in simp_all)
    also have "\<dots> = replicate (shape0 t * 48) z" by (rule flatten_const)
    finally show ?thesis using run z by simp
  qed
  show ?thesis using first second by blast
qed

theorem validation_mae_witness:
  "main exact_numpy (Inr validation_features) (Inr (predict zero_model)) ten_row_targets =
     ([MAE 0], None)"
proof -
  have zero: "np_subtract exact_numpy 0 0 = 0 \<and> np_absolute exact_numpy 0 = 0
        \<and> np_mean exact_numpy (replicate (shape0 (full 10 48 (0::real)) * 48) 0) = 0
        \<and> (\<forall>i < shape0 (full 10 48 (0::real)). \<forall>j < 48. item (full 10 48 (0::real)) i j = 0)
        \<and> (\<forall>b \<in> set [full 10 48 (0::real)]. \<forall>i < shape0 b. \<forall>j < 48. item b i j = 0)"
    by (simp add: exact_numpy_def full_def sum_list_replicate)
  have shapes: "list_all (\<lambda>b. shape1 b = 48) [full 10 48 (0::real)]"
    "shape0 (full 10 48 (0::real)) = sum_list (map shape0 [full 10 48 (0::real)])"
    "shape1 (full 10 48 (0::real)) = 48"
    by (simp_all add: full_def)
  have targets: "ten_row_targets validation_features = Some (full 10 48 0)"
    by (simp add: ten_row_targets_def)
  have "[full 10 48 (0::real)] \<noteq> []" by simp
  from validation_mae [where data = "Inr validation_features" and d = validation_features
      and evaluator = "Inr (predict zero_model)" and predict_fn = "predict zero_model"
      and batches = "[full 10 48 0]" and targets = ten_row_targets and t = "full 10 48 0"
      and np = exact_numpy and z = 0,
      OF refl refl validation_predict this shapes(1) targets shapes(2,3)] zero
  show ?thesis by blast
qed

text \<open>
  Claim C7, amended. In a validation run that accumulates all its batches, if the
  number of target rows differs from the number of prediction rows and neither
  number is 1, the script raises \<open>ValueError\<close> and prints nothing. (As stated,
  without the condition on 1, the claim fails: numpy broadcasts a single row, see
  the counterexample below.)
\<close>

theorem validation_shape_mismatch:
  assumes "data = Inr d" and "evaluator = Inr predict_fn"
    and "predict_fn d = yields batches Stop"
    and "list_all (\<lambda>b. shape1 b = 48) batches"
    and "targets d = Some t"
    and "shape0 t \<noteq> sum_list (map shape0 batches)"
    and "shape0 t \<noteq> 1" and "sum_list (map shape0 batches) \<noteq> 1"
  shows "main np data evaluator targets = ([], Some ValueError)"
proof (cases batches)
  case Nil
  then show ?thesis
    using main_collected [of data d evaluator predict_fn batches targets t np] assms(1-5)
    by (simp add: concatenate_def)
next
  case (Cons a rest)
  then show ?thesis
    using main_collected [of data d evaluator predict_fn batches targets t np] assms
    by (simp add: concatenate_closed array_subtract_def broadcastable_def)
qed

theorem validation_shape_mismatch_witness:
  "shape0 (full 3 48 (1::real)) \<noteq> sum_list (map shape0 [full 2 48 (0::real)])
   \<and> main exact_numpy (Inr two_sample_features) (Inr (predict zero_model)) three_row_targets
       = ([], Some ValueError)"
  using validation_shape_mismatch [of "Inr two_sample_features" two_sample_features
      "Inr (predict zero_model)" "predict zero_model" "[full 2 48 0]" three_row_targets
      "full 3 48 1" exact_numpy] two_sample_predict
  by (simp add: full_def three_row_targets_def)

text \<open>
  A data file of two samples whose targets hold one row: the predictions have two
  rows, the single target row is broadcast against them, and the script prints a
  metric instead of raising.
\<close>

theorem validation_shape_mismatch_counterexample:
  "predict zero_model two_sample_features = Yield (full 2 48 0) Stop
   \<and> one_row_targets two_sample_features = Some (full 1 48 1)
   \<and> shape0 (full 1 48 (1::real)) \<noteq> shape0 (full 2 48 (0::real))
   \<and> main exact_numpy (Inr two_sample_features) (Inr (predict zero_model)) one_row_targets
       = ([MAE 1], None)"
proof -
  have mean: "np_mean exact_numpy (flatten \<lparr>shape0 = 2, shape1 = 48, item = (\<lambda>i j. (1::real))\<rparr>) = 1"
    by (simp only: flatten_const) (simp add: exact_mean_replicate)
  have ops: "np_subtract exact_numpy = (\<lambda>x y. x - y)" "np_absolute exact_numpy = abs"
    by (simp_all add: exact_numpy_def)
  show ?thesis
    using two_sample_predict
    by (simp add: main_def one_row_targets_def full_def concatenate_def array_subtract_def
        broadcastable_def broadcast_dim_def broadcast_index_def array_absolute_def ops mean)
qed

end
